theory Spec2Isabelle
  imports Complex_Main "HOL-Library.Sublist" "HOL-Library.AList"
begin

section \<open>Strings\<close>

text \<open>
  The texts that the program handles as a whole (the prompts, the schema, the content of
  a completion) are modelled as a \<^typ>\<open>string\<close>: a list of code units below 256 (the
  Latin-1 range of UTF-16). The string methods of the runtime that \<open>openAI.ts\<close> calls
  are given by their meaning on such strings.
\<close>

definition startsWith :: "string \<Rightarrow> string \<Rightarrow> bool" where
  "startsWith s p = prefix p s"

definition endsWith :: "string \<Rightarrow> string \<Rightarrow> bool" where
  "endsWith s p = suffix p s"

definition includes_str :: "string \<Rightarrow> string \<Rightarrow> bool" where
  "includes_str s p = sublist p s"

text \<open>
  \<open>String.prototype.trim\<close> removes white space and line terminators at both ends; below
  code unit 256 these are TAB, LF, VT, FF, CR, SPACE and NO-BREAK SPACE.
\<close>

definition isWhiteSpace :: "char \<Rightarrow> bool" where
  "isWhiteSpace c = (c \<in> set [CHR 0x09, CHR 0x0A, CHR 0x0B, CHR 0x0C, CHR 0x0D, CHR 0x20, CHR 0xA0])"

definition trim :: "string \<Rightarrow> string" where
  "trim s = rev (dropWhile isWhiteSpace (rev (dropWhile isWhiteSpace s)))"

text \<open>
  \<open>String.prototype.toLowerCase\<close>: below code unit 256 the upper-case letters are
  \<open>A\<close>..\<open>Z\<close> and \<open>U+00C0\<close>..\<open>U+00DE\<close> without the multiplication sign \<open>U+00D7\<close>;
  each is mapped 32 code units up.
\<close>

definition toLowerChar :: "char \<Rightarrow> char" where
  "toLowerChar c =
     (let n = (of_char c :: nat)
      in if (65 \<le> n \<and> n \<le> 90) \<or> (192 \<le> n \<and> n \<le> 222 \<and> n \<noteq> 215)
         then char_of (n + 32) else c)"

definition toLowerCase :: "string \<Rightarrow> string" where
  "toLowerCase s = map toLowerChar s"

text \<open>
  A string inside a parsed reply can hold code units above 255, written as escapes
  \<open>\uXXXX\<close>. String values and property names of JSON values are therefore lists of
  UTF-16 code units, each given by its number; \<open>units\<close> gives the code units of a text.
\<close>

type_synonym jsString = "int list"

definition units :: "string \<Rightarrow> jsString" where
  "units s = map of_char s"

definition includes_units :: "jsString \<Rightarrow> jsString \<Rightarrow> bool" where
  "includes_units s p = sublist p s"

text \<open>
  \<open>toLowerCase\<close> on code units. A string without a code unit above 255 is lowered as
  above. For any other string the result follows the Unicode case tables of the runtime,
  which are not part of the program: \<open>unicodeLower\<close>, a parameter of the model, stands
  for the runtime's \<open>toLowerCase\<close> on those strings.
\<close>

definition toLowerUnit :: "int \<Rightarrow> int" where
  "toLowerUnit u =
     (if (65 \<le> u \<and> u \<le> 90) \<or> (192 \<le> u \<and> u \<le> 222 \<and> u \<noteq> 215) then u + 32 else u)"

definition toLowerCaseUnits :: "(jsString \<Rightarrow> jsString) \<Rightarrow> jsString \<Rightarrow> jsString" where
  "toLowerCaseUnits unicodeLower q =
     (if list_all (\<lambda>u. u < 256) q then map toLowerUnit q else unicodeLower q)"

definition joinLines :: "string list \<Rightarrow> string" where
  "joinLines ls = (case ls of [] \<Rightarrow> [] | l # rest \<Rightarrow> l @ concat (map (\<lambda>x. CHR 0x0A # x) rest))"


section \<open>Regular expressions with backtracking\<close>

text \<open>
  The fragment of the regular expression language that \<open>extractJson\<close> uses: a literal
  character, a negated character class, sequence, alternation and the greedy star.
\<close>

datatype regex =
    Lit char
  | NoneOf "char list"
  | Cat regex regex
  | Alt regex regex
  | Star regex

text \<open>
  \<open>rmatch r s\<close> lists the remainders of \<open>s\<close> after every way of matching \<open>r\<close> at the
  start of \<open>s\<close>, in the order in which a backtracking matcher tries them: the left
  alternative before the right one, one more iteration of a star before stopping. An
  iteration of a star that consumes nothing is not taken.
\<close>

function rmatch :: "regex \<Rightarrow> string \<Rightarrow> string list" where
  "rmatch (Lit c) s = (case s of [] \<Rightarrow> [] | x # xs \<Rightarrow> if x = c then [xs] else [])"
| "rmatch (NoneOf cs) s = (case s of [] \<Rightarrow> [] | x # xs \<Rightarrow> if x \<notin> set cs then [xs] else [])"
| "rmatch (Cat r1 r2) s = concat (map (rmatch r2) (rmatch r1 s))"
| "rmatch (Alt r1 r2) s = rmatch r1 s @ rmatch r2 s"
| "rmatch (Star r) s =
     concat (map (\<lambda>s'. if length s' < length s then rmatch (Star r) s' else []) (rmatch r s))
       @ [s]"
  by pat_completeness auto
termination
  by (relation "measures [\<lambda>(r, s). size r, \<lambda>(r, s). length s]") auto

text \<open>
  \<open>String.prototype.match\<close> with a global regular expression: all matches from left to
  right, each search resuming where the previous match ended (one code unit further after
  an empty match). The method returns \<open>null\<close> when the list is empty.
\<close>

function matches :: "regex \<Rightarrow> string \<Rightarrow> string list" where
  "matches r s =
     (case rmatch r s of
        rest # _ \<Rightarrow>
          (if length rest < length s
           then take (length s - length rest) s # matches r rest
           else [] # (case s of [] \<Rightarrow> [] | _ # xs \<Rightarrow> matches r xs))
      | [] \<Rightarrow> (case s of [] \<Rightarrow> [] | _ # xs \<Rightarrow> matches r xs))"
  by pat_completeness auto
termination
  by (relation "measure (\<lambda>(r, s). length s)") auto

definition String_match :: "string \<Rightarrow> regex \<Rightarrow> string list option" where
  "String_match s r = (case matches r s of [] \<Rightarrow> None | ms \<Rightarrow> Some ms)"


section \<open>The JSON extractor\<close>

text \<open>The regular expression \<^verbatim>\<open>/\{(?:[^{}]|{[^{}]*})*\}/g\<close> of \<open>extractJson\<close>.\<close>

definition jsonRegex :: regex where
  "jsonRegex =
     Cat (Lit CHR ''{'')
       (Cat (Star (Alt (NoneOf ''{}'')
                       (Cat (Lit CHR ''{'') (Cat (Star (NoneOf ''{}'')) (Lit CHR ''}'')))))
            (Lit CHR ''}''))"

definition extractJson :: "string \<Rightarrow> string" where
  "extractJson content =
     (case String_match content jsonRegex of
        Some match \<Rightarrow> (case match of m # _ \<Rightarrow> m | [] \<Rightarrow> [])
      | None \<Rightarrow> [])"


text \<open>
  The extractor in the words of the specification. A text is balanced to one level of
  nesting when it is an opening brace, then any number of characters other than braces
  and of complete groups \<open>{...}\<close> without braces inside, then the closing brace.
  \<open>topLevel\<close> reads the part between the outer braces, \<open>nested\<close> the rest of that part
  from inside a group.
\<close>

fun topLevel :: "string \<Rightarrow> bool" and nested :: "string \<Rightarrow> bool" where
  "topLevel [] = True"
| "topLevel (c # cs) =
     (if c = CHR ''{'' then nested cs else if c = CHR ''}'' then False else topLevel cs)"
| "nested [] = False"
| "nested (c # cs) =
     (if c = CHR ''}'' then topLevel cs else if c = CHR ''{'' then False else nested cs)"

definition balancedObject :: "string \<Rightarrow> bool" where
  "balancedObject t =
     (case t of
        [] \<Rightarrow> False
      | c # cs \<Rightarrow> c = CHR ''{'' \<and> cs \<noteq> [] \<and> last cs = CHR ''}'' \<and> topLevel (butlast cs))"

text \<open>
  The first balanced substring: the start positions are tried from left to right, and at
  each the prefixes of the remaining text from the shortest on; the empty string when
  there is none.
\<close>

fun firstBalanced :: "string \<Rightarrow> string" where
  "firstBalanced [] = []"
| "firstBalanced (c # cs) =
     (case find balancedObject (prefixes (c # cs)) of
        Some t \<Rightarrow> t
      | None \<Rightarrow> firstBalanced cs)"

text \<open>
  A scanner used in the proofs: \<open>closeTop s\<close> is the text after the closing brace that
  ends a balanced body at the start of \<open>s\<close>, \<open>closeNested\<close> likewise from inside a group.
\<close>

fun closeTop :: "string \<Rightarrow> string option" and closeNested :: "string \<Rightarrow> string option" where
  "closeTop [] = None"
| "closeTop (c # cs) =
     (if c = CHR ''}'' then Some cs else if c = CHR ''{'' then closeNested cs else closeTop cs)"
| "closeNested [] = None"
| "closeNested (c # cs) =
     (if c = CHR ''}'' then closeTop cs else if c = CHR ''{'' then None else closeNested cs)"

text \<open>The end of one nested group: characters other than braces, then a closing brace.\<close>

fun closeGroup :: "string \<Rightarrow> string option" where
  "closeGroup [] = None"
| "closeGroup (c # cs) =
     (if c = CHR ''}'' then Some cs else if c = CHR ''{'' then None else closeGroup cs)"

text \<open>The parts of \<open>jsonRegex\<close>, and an option as a list of at most one element.\<close>

abbreviation noBrace :: regex where "noBrace \<equiv> NoneOf ''{}''"
abbreviation groupRegex :: regex where
  "groupRegex \<equiv> Cat (Lit CHR ''{'') (Cat (Star noBrace) (Lit CHR ''}''))"
abbreviation itemRegex :: regex where "itemRegex \<equiv> Alt noBrace groupRegex"

definition optList :: "'a option \<Rightarrow> 'a list" where
  "optList x = (case x of None \<Rightarrow> [] | Some y \<Rightarrow> [y])"


section \<open>JSON values and \<open>JSON.parse\<close>\<close>

text \<open>
  The values that \<open>JSON.parse\<close> produces. A number carries the exact value of its
  literal. A string is the list of its code units. An object is the list of its own
  properties in the order of their creation; property names are distinct. Names that are
  array indices, which the runtime enumerates first, are not treated apart: the program
  reads properties by name and never enumerates them.
\<close>

datatype json =
    JNull
  | JBool bool
  | JNum rat
  | JStr jsString
  | JArr "json list"
  | JObj "(jsString \<times> json) list"

text \<open>White space of the JSON grammar: space, tab, line feed, carriage return.\<close>

definition isJsonWs :: "char \<Rightarrow> bool" where
  "isJsonWs c = (c \<in> set [CHR 0x20, CHR 0x09, CHR 0x0A, CHR 0x0D])"

definition skipWs :: "string \<Rightarrow> string" where
  "skipWs s = dropWhile isJsonWs s"

definition isDigit :: "char \<Rightarrow> bool" where
  "isDigit c = (c \<in> set ''0123456789'')"

definition digitVal :: "char \<Rightarrow> nat" where
  "digitVal c = of_char c - 48"

definition digitsVal :: "string \<Rightarrow> nat" where
  "digitsVal ds = foldl (\<lambda>n d. 10 * n + digitVal d) 0 ds"

definition hexVal :: "char \<Rightarrow> int option" where
  "hexVal c =
     (let n = (of_char c :: int)
      in if 48 \<le> n \<and> n \<le> 57 then Some (n - 48)
         else if 65 \<le> n \<and> n \<le> 70 then Some (n - 55)
         else if 97 \<le> n \<and> n \<le> 102 then Some (n - 87)
         else None)"

text \<open>The single-character escapes of a JSON string: the character after the backslash.\<close>

definition escapeChar :: "char \<Rightarrow> char option" where
  \<open>escapeChar e =
     (if e = CHR ''"'' then Some CHR ''"''
      else if e = CHR 0x5C then Some (CHR 0x5C)
      else if e = CHR ''/'' then Some CHR ''/''
      else if e = CHR ''b'' then Some (CHR 0x08)
      else if e = CHR ''f'' then Some (CHR 0x0C)
      else if e = CHR ''n'' then Some (CHR 0x0A)
      else if e = CHR ''r'' then Some (CHR 0x0D)
      else if e = CHR ''t'' then Some (CHR 0x09)
      else None)\<close>

text \<open>
  The characters of a string literal after its opening quote, up to the closing quote:
  the code units of the decoded string and the text that follows. Control characters
  must be escaped. An escape \<open>\uXXXX\<close> denotes the code unit with the hexadecimal number
  \<open>XXXX\<close>, whatever its value.
\<close>

fun parseChars :: "string \<Rightarrow> (jsString \<times> string) option" where
  "parseChars [] = None"
| "parseChars (c # cs) =
     (if c = CHR 0x22 then Some ([], cs)
      else if c = CHR 0x5C then
        (case cs of
           [] \<Rightarrow> None
         | e # es \<Rightarrow>
             if e = CHR ''u'' then
               (case es of
                  h1 # h2 # h3 # h4 # rest \<Rightarrow>
                    (case (hexVal h1, hexVal h2, hexVal h3, hexVal h4) of
                       (Some a, Some b, Some c, Some d) \<Rightarrow>
                         map_option
                           (\<lambda>(str, r). ((((a * 16 + b) * 16 + c) * 16 + d) # str, r))
                           (parseChars rest)
                     | _ \<Rightarrow> None)
                | _ \<Rightarrow> None)
             else
               (case escapeChar e of
                  Some ch \<Rightarrow> map_option (\<lambda>(str, r). (of_char ch # str, r)) (parseChars es)
                | None \<Rightarrow> None))
      else if (of_char c :: nat) < 32 then None
      else map_option (\<lambda>(str, r). (of_char c # str, r)) (parseChars cs))"

text \<open>
  A number literal: an optional minus sign, an integer part without a leading zero, an
  optional fraction and an optional exponent.
\<close>

definition parseInteger :: "string \<Rightarrow> (string \<times> string) option" where
  "parseInteger s =
     (case s of
        [] \<Rightarrow> None
      | c # cs \<Rightarrow>
          if c = CHR ''0'' then Some ([c], cs)
          else if isDigit c then Some (takeWhile isDigit s, dropWhile isDigit s)
          else None)"

definition parseFraction :: "string \<Rightarrow> (string \<times> string) option" where
  "parseFraction s =
     (case s of
        [] \<Rightarrow> Some ([], s)
      | c # cs \<Rightarrow>
          if c = CHR ''.'' then
            (if takeWhile isDigit cs = [] then None
             else Some (takeWhile isDigit cs, dropWhile isDigit cs))
          else Some ([], s))"

definition parseExponent :: "string \<Rightarrow> (int \<times> string) option" where
  "parseExponent s =
     (case s of
        [] \<Rightarrow> Some (0, s)
      | c # cs \<Rightarrow>
          if c = CHR ''e'' \<or> c = CHR ''E'' then
            (let (neg, ds) =
                   (case cs of
                      [] \<Rightarrow> (False, cs)
                    | d # rest \<Rightarrow>
                        if d = CHR ''-'' then (True, rest)
                        else if d = CHR ''+'' then (False, rest)
                        else (False, cs))
             in if takeWhile isDigit ds = [] then None
                else Some ((if neg then - int (digitsVal (takeWhile isDigit ds))
                            else int (digitsVal (takeWhile isDigit ds))),
                           dropWhile isDigit ds))
          else Some (0, s))"

definition parseNumber :: "string \<Rightarrow> (json \<times> string) option" where
  "parseNumber s =
     (let (neg, s1) =
            (case s of [] \<Rightarrow> (False, s) | c # cs \<Rightarrow> if c = CHR ''-'' then (True, cs) else (False, s))
      in case parseInteger s1 of
           None \<Rightarrow> None
         | Some (ip, s2) \<Rightarrow>
             (case parseFraction s2 of
                None \<Rightarrow> None
              | Some (fp, s3) \<Rightarrow>
                  (case parseExponent s3 of
                     None \<Rightarrow> None
                   | Some (e, s4) \<Rightarrow>
                       (let m = (of_nat (digitsVal (ip @ fp)) :: rat) / 10 ^ length fp;
                            v = (if e < 0 then m / 10 ^ nat (- e) else m * 10 ^ nat e)
                        in Some (JNum (if neg then - v else v), s4)))))"

text \<open>
  A value, the elements of an array and the members of an object. \<open>parseElements\<close>
  and \<open>parseMembers\<close> start at the first character of an element or of a member name
  and carry what has been read so far. A repeated member
  name overwrites the earlier value. The tests on the length of the text that remains
  after a value always succeed (\<open>parseValue_shorter\<close> below); they make the recursion
  visibly well-founded.
\<close>

lemma parseChars_shorter: "parseChars s = Some (str, r) \<Longrightarrow> length r < length s"
proof (induction s arbitrary: str r rule: parseChars.induct)
  case 1
  then show ?case by simp
next
  case (2 c cs)
  then show ?case
    by (fastforce split: if_splits list.splits option.splits prod.splits simp: Let_def)
qed

lemma length_skipWs_le: "length (skipWs s) \<le> length s"
  by (simp add: skipWs_def length_dropWhile_le)

lemma skipWs_Cons_shorter: "skipWs r = d # ds \<Longrightarrow> length ds < length r"
  using length_skipWs_le [of r] by simp

function parseValue :: "string \<Rightarrow> (json \<times> string) option"
  and parseElements :: "string \<Rightarrow> json list \<Rightarrow> (json \<times> string) option"
  and parseMembers :: "string \<Rightarrow> (jsString \<times> json) list \<Rightarrow> (json \<times> string) option"
where
  "parseValue s =
     (case s of
        [] \<Rightarrow> None
      | c # cs \<Rightarrow>
          if c = CHR ''{'' then
            (case skipWs cs of
               [] \<Rightarrow> None
             | d # ds \<Rightarrow> if d = CHR ''}'' then Some (JObj [], ds) else parseMembers (d # ds) [])
          else if c = CHR ''['' then
            (case skipWs cs of
               [] \<Rightarrow> None
             | d # ds \<Rightarrow> if d = CHR '']'' then Some (JArr [], ds) else parseElements (d # ds) [])
          else if c = CHR 0x22 then map_option (\<lambda>(str, r). (JStr str, r)) (parseChars cs)
          else if c = CHR ''-'' \<or> isDigit c then parseNumber s
          else if prefix ''true'' s then Some (JBool True, drop 4 s)
          else if prefix ''false'' s then Some (JBool False, drop 5 s)
          else if prefix ''null'' s then Some (JNull, drop 4 s)
          else None)"
| "parseElements s acc =
     (case parseValue s of
        None \<Rightarrow> None
      | Some (v, r) \<Rightarrow>
          if length r < length s then
            (case skipWs r of
               [] \<Rightarrow> None
             | d # ds \<Rightarrow>
                 if d = CHR '','' then parseElements (skipWs ds) (acc @ [v])
                 else if d = CHR '']'' then Some (JArr (acc @ [v]), ds)
                 else None)
          else None)"
| "parseMembers s acc =
     (case s of
        [] \<Rightarrow> None
      | q # cs \<Rightarrow>
          if q = CHR 0x22 then
            (case parseChars cs of
               None \<Rightarrow> None
             | Some (k, r) \<Rightarrow>
                 (case skipWs r of
                    [] \<Rightarrow> None
                  | d # ds \<Rightarrow>
                      if d = CHR '':'' then
                        (case parseValue (skipWs ds) of
                           None \<Rightarrow> None
                         | Some (v, r') \<Rightarrow>
                             if length r' < length s then
                               (case skipWs r' of
                                  [] \<Rightarrow> None
                                | d' # ds' \<Rightarrow>
                                    if d' = CHR '','' then
                                      parseMembers (skipWs ds') (AList.update k v acc)
                                    else if d' = CHR ''}'' then
                                      Some (JObj (AList.update k v acc), ds')
                                    else None)
                             else None)
                      else None))
          else None)"
  by pat_completeness auto

termination
proof (relation "measures [\<lambda>x. case x of Inl s \<Rightarrow> length s | Inr (Inl (s, _)) \<Rightarrow> length s
                                  | Inr (Inr (s, _)) \<Rightarrow> length s,
                           \<lambda>x. case x of Inl _ \<Rightarrow> 0 | Inr _ \<Rightarrow> 1]", goal_cases)
  case 1
  show ?case by simp
next
  case (2 s c cs d ds)
  then show ?case using skipWs_Cons_shorter [of cs d ds] by simp
next
  case (3 s c cs d ds)
  then show ?case using skipWs_Cons_shorter [of cs d ds] by simp
next
  case (4 s acc)
  show ?case by simp
next
  case (5 s acc x v r d ds)
  then show ?case
    using skipWs_Cons_shorter [of r d ds] length_skipWs_le [of ds] by simp
next
  case (6 s acc q cs x k r d ds)
  then show ?case
    using parseChars_shorter [of cs k r] skipWs_Cons_shorter [of r d ds] length_skipWs_le [of ds]
    by simp
next
  case (7 s acc q cs x k r d ds y v r' d' ds')
  then show ?case
    using skipWs_Cons_shorter [of r' d' ds'] length_skipWs_le [of ds'] by simp
qed

text \<open>
  \<open>JSON.parse\<close>: one value, with white space around it and nothing else. \<open>None\<close> stands
  for the \<open>SyntaxError\<close> that the runtime raises.
\<close>

definition JSON_parse :: "string \<Rightarrow> json option" where
  "JSON_parse text =
     (case parseValue (skipWs text) of
        None \<Rightarrow> None
      | Some (v, r) \<Rightarrow> if skipWs r = [] then Some v else None)"


section \<open>JavaScript values\<close>

text \<open>
  A value read from a property is a JSON value or \<open>undefined\<close> (\<open>None\<close>). The falsy
  values are \<open>undefined\<close>, \<open>null\<close>, \<open>false\<close>, the empty string and the number zero. A
  number literal denotes the zero of the number type when its exact value rounds to zero
  in double precision, that is when its magnitude times \<open>2\<^sup>1\<^sup>0\<^sup>7\<^sup>5\<close> is at most one.
\<close>

fun truthy :: "json option \<Rightarrow> bool" where
  "truthy None = False"
| "truthy (Some JNull) = False"
| "truthy (Some (JBool b)) = b"
| "truthy (Some (JNum q)) = (\<not> \<bar>q\<bar> * of_int (2 ^ 1075) \<le> 1)"
| "truthy (Some (JStr s)) = (s \<noteq> [])"
| "truthy (Some (JArr xs)) = True"
| "truthy (Some (JObj kvs)) = True"

datatype error =
    ConfigurationError string
  | TransportError
  | FileError
  | SyntaxError
  | TypeError

type_synonym object = "(jsString \<times> json) list"

text \<open>Reading and writing a property whose name the program gives as a literal.\<close>

definition getProp :: "object \<Rightarrow> string \<Rightarrow> json option" where
  "getProp obj k = map_of obj (units k)"

definition setProp :: "object \<Rightarrow> string \<Rightarrow> json \<Rightarrow> object" where
  "setProp obj k v = AList.update (units k) v obj"

text \<open>Object spread \<open>{ ...a, ...b }\<close>: the properties of \<open>b\<close> are written onto \<open>a\<close> in order.\<close>

definition spread :: "object \<Rightarrow> object \<Rightarrow> object" where
  "spread a b = foldl (\<lambda>obj (k, v). AList.update k v obj) a b"


section \<open>The SQL safety filter\<close>

definition prohibitedKeywords :: "string list" where
  "prohibitedKeywords =
     [''insert'', ''update'', ''delete'', ''drop'', ''truncate'', ''alter'', ''create'', ''replace'',
      ''information_schema'', ''pg_catalog'', ''pg_tables'', ''pg_namespace'', ''pg_class'',
      ''table_schema'', ''table_name'', ''column_name'', ''column_default'', ''is_nullable'',
      ''data_type'', ''udt_name'', ''character_maximum_length'', ''numeric_precision'',
      ''numeric_scale'', ''datetime_precision'', ''interval_type'', ''collation_name'',
      ''grant'', ''revoke'', ''rollback'', ''commit'', ''savepoint'', ''vacuum'', ''analyze'']"

text \<open>
  \<open>isProhibitedQuery\<close> is declared on strings, but \<open>getSQL\<close> passes it properties of a
  parsed reply, which can hold any value. A falsy value is not prohibited; a truthy value
  that is not a string has no \<open>toLowerCase\<close> method, and the call raises a \<open>TypeError\<close>.
  The first argument stands for the case tables of the runtime (see \<open>toLowerCaseUnits\<close>).
\<close>

definition isProhibitedQuery :: "(jsString \<Rightarrow> jsString) \<Rightarrow> json option \<Rightarrow> error + bool" where
  "isProhibitedQuery unicodeLower query =
     (if \<not> truthy query then Inr False
      else
        (case query of
           Some (JStr q) \<Rightarrow>
             (let queryLower = toLowerCaseUnits unicodeLower q
              in Inr (list_ex (\<lambda>keyword. includes_units queryLower (units keyword))
                        prohibitedKeywords))
         | _ \<Rightarrow> Inl TypeError))"


section \<open>The completion client\<close>

text \<open>
  The four environment variables, read when the module is loaded. A variable that is not
  set is \<open>undefined\<close>; an unset or empty variable is falsy.
\<close>

record config =
  OPENAI_API_KEY :: "string option"
  OPENAI_ENDPOINT :: "string option"
  OPENAI_MODEL :: "string option"
  OPENAI_API_VERSION :: "string option"

definition isSet :: "string option \<Rightarrow> bool" where
  "isSet v = (case v of None \<Rightarrow> False | Some s \<Rightarrow> s \<noteq> [])"

text \<open>Interpolation of a variable into a template string.\<close>

definition interpolate :: "string option \<Rightarrow> string" where
  "interpolate v = (case v of None \<Rightarrow> ''undefined'' | Some s \<Rightarrow> s)"

text \<open>
  The chat payload \<open>{ max_tokens, temperature, messages }\<close>, with each message as the pair
  of its role and its content, and the two requests that carry it: the POST to the Azure
  deployment (URL, \<open>api-key\<close> header, body) and the \<open>createChatCompletion\<close> call of the
  OpenAI client (API key, model, payload).
\<close>

datatype chatData = ChatData nat rat "(string \<times> string) list"

datatype request =
    AzurePost string string chatData
  | OpenAIChat string string chatData

text \<open>
  Modelled from the spec: \<open>interfaces.ts\<close>, which declares \<open>AzureOpenAIResponse\<close>, is not
  part of the sources. The response is JSON with \<open>choices[0].message.content\<close>; the
  message of a choice and the content of a message may be absent.
\<close>

datatype chatMessage = ChatMessage "string option"

datatype choice = Choice "chatMessage option"

datatype completion = Completion "choice list"

text \<open>
  The service is a parameter of the model: for each request, either the decoded response
  or the exception raised inside the client's \<open>try\<close> block, by the network call, by
  decoding the body or by reading a body that does not have the declared shape. The client
  treats all of these alike: it logs the exception and throws it again.
\<close>

type_synonym service = "request \<Rightarrow> error + completion"

datatype logArg = Text string | Exn error

datatype logEntry = ConsoleLog "logArg list" | ConsoleError "logArg list"

text \<open>\<open>completion.choices[0]?.message?.content?.trim() ?? ''\<close>\<close>

definition firstContent :: "completion \<Rightarrow> string" where
  "firstContent completion =
     (case completion of
        Completion [] \<Rightarrow> []
      | Completion (Choice None # _) \<Rightarrow> []
      | Completion (Choice (Some (ChatMessage None)) # _) \<Rightarrow> []
      | Completion (Choice (Some (ChatMessage (Some content))) # _) \<Rightarrow> trim content)"

definition chatMessages :: "string \<Rightarrow> string \<Rightarrow> (string \<times> string) list" where
  "chatMessages systemPrompt userPrompt = [(''system'', systemPrompt), (''user'', userPrompt)]"

definition getAzureOpenAICompletion ::
  "config \<Rightarrow> service \<Rightarrow> string \<Rightarrow> string \<Rightarrow> rat \<Rightarrow> logEntry list \<times> (error + string)" where
  "getAzureOpenAICompletion env service systemPrompt userPrompt temperature =
     (if \<not> isSet (OPENAI_API_KEY env) \<or> \<not> isSet (OPENAI_ENDPOINT env) \<or> \<not> isSet (OPENAI_MODEL env)
      then ([], Inl (ConfigurationError
              ''Missing Azure OpenAI API key, endpoint, or model in environment variables.''))
      else
        (let url = interpolate (OPENAI_ENDPOINT env) @ ''/openai/deployments/''
                     @ interpolate (OPENAI_MODEL env) @ ''/chat/completions?api-version=''
                     @ interpolate (OPENAI_API_VERSION env);
             data = ChatData 1024 temperature (chatMessages systemPrompt userPrompt)
         in case service (AzurePost url (interpolate (OPENAI_API_KEY env)) data) of
              Inl e \<Rightarrow> ([ConsoleError [Text ''Error getting data:'', Exn e]], Inl e)
            | Inr completion \<Rightarrow>
                (let content = firstContent completion
                 in ([ConsoleLog [Text ''Azure OpenAI Output: \<newline>'', Text content]],
                     Inr (if content \<noteq> [] \<and> includes_str content ''{'' \<and> includes_str content ''}''
                          then extractJson content else content)))))"

definition getOpenAICompletion ::
  "config \<Rightarrow> service \<Rightarrow> string \<Rightarrow> string \<Rightarrow> rat \<Rightarrow> logEntry list \<times> (error + string)" where
  "getOpenAICompletion env service systemPrompt userPrompt temperature =
     (if \<not> isSet (OPENAI_API_KEY env)
      then ([], Inl (ConfigurationError ''Missing OpenAI API key in environment variables.''))
      else
        (case service (OpenAIChat (interpolate (OPENAI_API_KEY env)) ''gpt-3.5-turbo''
                         (ChatData 1024 temperature (chatMessages systemPrompt userPrompt))) of
           Inl e \<Rightarrow> ([ConsoleError [Text ''Error getting data:'', Exn e]], Inl e)
         | Inr completion \<Rightarrow>
             (let content = extractJson (firstContent completion)
              in ([ConsoleLog [Text ''OpenAI Output: \<newline>'', Text content]],
                  Inr (if content \<noteq> [] \<and> includes_str content ''{'' \<and> includes_str content ''}''
                       then extractJson content else content)))))"

definition callOpenAI ::
  "config \<Rightarrow> service \<Rightarrow> string \<Rightarrow> string \<Rightarrow> rat \<Rightarrow> logEntry list \<times> (error + string)" where
  "callOpenAI env service systemPrompt userPrompt temperature =
     (let isAzureOpenAI =
            isSet (OPENAI_API_KEY env) \<and> isSet (OPENAI_ENDPOINT env) \<and> isSet (OPENAI_MODEL env)
      in if isAzureOpenAI
         then getAzureOpenAICompletion env service systemPrompt userPrompt temperature
         else getOpenAICompletion env service systemPrompt userPrompt temperature)"


section \<open>The query and message flows\<close>

text \<open>
  Both flows call \<open>JSON.parse\<close> only on a text that starts with an opening brace. Such a
  text parses to an object or not at all (\<open>JSON_parse_brace\<close> below), so the parsed reply
  is taken as an object.
\<close>

definition JSON_parse_object :: "string \<Rightarrow> error + object" where
  "JSON_parse_object text =
     (case JSON_parse text of Some (JObj kvs) \<Rightarrow> Inr kvs | _ \<Rightarrow> Inl SyntaxError)"

definition sqlSystemPrompt :: "string \<Rightarrow> string" where
  \<open>sqlSystemPrompt dbSchema = joinLines
     ['''',
      ''    Assistant is a natural language to SQL bot that returns a JSON object with the SQL query and '',
      ''    the parameter values in it. The SQL will query a PostgreSQL database.'',
      '''',
      ''    PostgreSQL tables, with their columns:'',
      '''',
      ''    '' @ dbSchema,
      '''',
      ''    Rules:'',
      ''    - Convert any strings to a PostgreSQL parameterized query value to avoid SQL injection attacks.'',
      ''    - Always return a JSON object with the SQL query and the parameter values in it. '',
      ''    '',
      ''    Example JSON object to return: { "sql": "", "paramValues": [] }'',
      ''    '']\<close>

definition defaultQueryData :: object where
  "defaultQueryData =
     [(units ''sql'', JStr (units '''')), (units ''paramValues'', JArr []),
      (units ''error'', JStr (units ''''))]"

text \<open>
  \<open>isProhibitedQuery(queryData.sql) || isProhibitedQuery(queryData.error)\<close>: the second
  call is made only when the first returns \<open>false\<close>.
\<close>

definition prohibited :: "(jsString \<Rightarrow> jsString) \<Rightarrow> object \<Rightarrow> error + bool" where
  "prohibited unicodeLower queryData =
     (case isProhibitedQuery unicodeLower (getProp queryData ''sql'') of
        Inl e \<Rightarrow> Inl e
      | Inr True \<Rightarrow> Inr True
      | Inr False \<Rightarrow> isProhibitedQuery unicodeLower (getProp queryData ''error''))"

text \<open>
  \<open>getSQL\<close> takes the case tables of the runtime, which its safety filter consults, the
  environment, the outcome of reading \<open>db.schema\<close>, the service and the user prompt. It returns what it wrote to the console and either the error with
  which its promise is rejected or the object with which it is fulfilled. The read comes
  before the \<open>try\<close> block; inside the block an exception leaves \<open>queryData\<close> as it was at
  that point, and the handler logs the exception.
\<close>

definition getSQL ::
  "(jsString \<Rightarrow> jsString) \<Rightarrow> config \<Rightarrow> (error + string) \<Rightarrow> service \<Rightarrow> string \<Rightarrow>
     logEntry list \<times> (error + object)" where
  "getSQL unicodeLower env readFile service userPrompt =
     (case readFile of
        Inl e \<Rightarrow> ([], Inl e)
      | Inr dbSchema \<Rightarrow>
          (let systemPrompt = sqlSystemPrompt dbSchema;
               queryData = defaultQueryData
           in case callOpenAI env service systemPrompt userPrompt 0 of
                (out, Inl e) \<Rightarrow> (out @ [ConsoleLog [Exn e]], Inr queryData)
              | (out, Inr results) \<Rightarrow>
                  (case (if results \<noteq> [] \<and> startsWith results ''{'' \<and> endsWith results ''}''
                         then JSON_parse_object results
                         else Inr (spread queryData [(units ''error'', JStr (units results))])) of
                     Inl e \<Rightarrow> (out @ [ConsoleLog [Exn e]], Inr queryData)
                   | Inr queryData \<Rightarrow>
                       (case prohibited unicodeLower queryData of
                          Inl e \<Rightarrow> (out @ [ConsoleLog [Exn e]], Inr queryData)
                        | Inr True \<Rightarrow>
                            (out, Inr (setProp (setProp queryData ''sql'' (JStr (units '''')))
                                         ''error'' (JStr (units ''Prohibited query.''))))
                        | Inr False \<Rightarrow> (out, Inr queryData)))))"

definition emailSystemPrompt :: string where
  \<open>emailSystemPrompt = joinLines
     ['''',
      ''    Assistant is a bot designed to help users create email and SMS messages from data and '',
      ''    return a JSON object with the message information in it.'',
      '''',
      ''    Rules:'',
      ''    - Generate a subject line for the email message.'',
      ''    - Use the User Rules to generate the messages. '',
      ''    - All messages should have a friendly tone and never use inappropriate language.'',
      ''    - SMS messages should be in plain text format and no more than 160 characters. '',
      ''    - Start the message with "Hi <Contact Name>,\<newline>\<newline>". Contact Name can be found in the user prompt.'',
      ''    - Add carriage returns to the email message to make it easier to read. '',
      ''    - End with a signature line that says "Sincerely,\<newline>Customer Service".'',
      ''    - Return a JSON object with the emailSubject, emailBody, and SMS message values in it. '',
      '''',
      ''    Example JSON object: { "emailSubject": "", "emailBody": "", "sms": "" }'',
      ''    '']\<close>

definition emailUserPrompt :: "string \<Rightarrow> string \<Rightarrow> string" where
  "emailUserPrompt prompt contactName = joinLines
     ['''',
      ''        User Rules: '' @ prompt,
      ''        Contact Name: '' @ contactName,
      ''    '']"

definition defaultEmailSmsResponse :: object where
  "defaultEmailSmsResponse =
     [(units ''status'', JBool False), (units ''email'', JStr (units '''')),
      (units ''sms'', JStr (units '''')), (units ''error'', JStr (units ''''))]"

text \<open>
  \<open>completeEmailSMSMessages\<close>. On a reply in braces the source builds
  \<open>{ content, ...JSON.parse(results) }\<close>: an object whose first property, named
  \<open>content\<close>, holds the default response, followed by the properties of the parsed reply.
\<close>

definition completeEmailSMSMessages ::
  "config \<Rightarrow> service \<Rightarrow> string \<Rightarrow> string \<Rightarrow> string \<Rightarrow> logEntry list \<times> (error + object)" where
  "completeEmailSMSMessages env service prompt company contactName =
     (let inputs = [ConsoleLog [Text ''Inputs:'', Text prompt, Text company, Text contactName]];
          systemPrompt = emailSystemPrompt;
          userPrompt = emailUserPrompt prompt contactName;
          content = defaultEmailSmsResponse
      in case callOpenAI env service systemPrompt userPrompt (1 / 2) of
           (out, Inl e) \<Rightarrow> (inputs @ out @ [ConsoleLog [Exn e]], Inr content)
         | (out, Inr results) \<Rightarrow>
             if results \<noteq> [] \<and> startsWith results ''{'' \<and> endsWith results ''}'' then
               (case JSON_parse_object results of
                  Inl e \<Rightarrow> (inputs @ out @ [ConsoleLog [Exn e]], Inr content)
                | Inr parsed \<Rightarrow>
                    (inputs @ out,
                     Inr (setProp (spread [(units ''content'', JObj content)] parsed)
                            ''status'' (JBool True))))
             else (inputs @ out, Inr (setProp content ''error'' (JStr (units results)))))"


text \<open>
  Names for the completion calls of the two flows: the one that \<open>getSQL\<close> makes once it
  has read the schema, and the one that \<open>completeEmailSMSMessages\<close> makes.
\<close>

abbreviation sqlCompletion ::
  "config \<Rightarrow> service \<Rightarrow> string \<Rightarrow> string \<Rightarrow> logEntry list \<times> (error + string)" where
  "sqlCompletion env service dbSchema userPrompt \<equiv>
     callOpenAI env service (sqlSystemPrompt dbSchema) userPrompt 0"

abbreviation emailCompletion ::
  "config \<Rightarrow> service \<Rightarrow> string \<Rightarrow> string \<Rightarrow> logEntry list \<times> (error + string)" where
  "emailCompletion env service prompt contactName \<equiv>
     callOpenAI env service emailSystemPrompt (emailUserPrompt prompt contactName) (1 / 2)"


section \<open>Sample environments\<close>

text \<open>
  Two environments and a service for running the flows on a given reply: with key,
  endpoint and model set the Azure client is selected, with the key alone the OpenAI
  client. \<open>replyWith c\<close> answers every request with one choice whose content is \<open>c\<close>.
\<close>

definition azureEnv :: config where
  "azureEnv = \<lparr>OPENAI_API_KEY = Some ''key'', OPENAI_ENDPOINT = Some ''https://example.test'',
                OPENAI_MODEL = Some ''gpt-35'', OPENAI_API_VERSION = Some ''2023-05-15''\<rparr>"

definition openaiEnv :: config where
  "openaiEnv = \<lparr>OPENAI_API_KEY = Some ''key'', OPENAI_ENDPOINT = None,
                 OPENAI_MODEL = None, OPENAI_API_VERSION = None\<rparr>"

definition replyWith :: "string \<Rightarrow> service" where
  "replyWith c = (\<lambda>request. Inr (Completion [Choice (Some (ChatMessage (Some c)))]))"

text \<open>
  Case tables for the sample runs: the letters \<open>A\<close> to \<open>Z\<close> are lowered and every other
  code unit is kept, which is what the runtime does on the sample strings.
\<close>

definition asciiLower :: "jsString \<Rightarrow> jsString" where
  "asciiLower q = map (\<lambda>u. if 65 \<le> u \<and> u \<le> 90 then u + 32 else u) q"


text \<open>
  Two replies that write the right single quotation mark, code unit \<open>0x2019\<close>, as an
  escape of the JSON grammar (a backslash, the letter \<open>u\<close> and four hexadecimal digits).
\<close>

definition sqlReplyWithEscape :: string where
  \<open>sqlReplyWithEscape =
     ''{"sql":"DROP TABLE users -- '' @ [CHR 0x5C] @ ''u2019"}''\<close>

definition emailReplyWithEscape :: string where
  \<open>emailReplyWithEscape =
     ''{"emailSubject":"Hi","sms":"It'' @ [CHR 0x5C] @ ''u2019s here"}''\<close>


section \<open>The JSON extractor: properties\<close>

declare rmatch.simps [simp del] matches.simps [simp del]

lemma closeGroup_shorter: "closeGroup s = Some r \<Longrightarrow> length r < length s"
  by (induction s) (auto split: if_splits)

lemma rmatch_Lit: "rmatch (Lit c) s = (case s of [] \<Rightarrow> [] | x # xs \<Rightarrow> if x = c then [xs] else [])"
  by (rule rmatch.simps(1))

lemma rmatch_noBrace:
  "rmatch noBrace s =
     (case s of [] \<Rightarrow> [] | x # xs \<Rightarrow> if x = CHR ''{'' \<or> x = CHR ''}'' then [] else [xs])"
  by (cases s) (auto simp: rmatch.simps(2))

lemma rmatch_star_noBrace:
  "rmatch (Star noBrace) s =
     (case s of
        [] \<Rightarrow> [[]]
      | x # xs \<Rightarrow> if x = CHR ''{'' \<or> x = CHR ''}'' then [s] else rmatch (Star noBrace) xs @ [s])"
  by (subst rmatch.simps(5)) (auto simp: rmatch_noBrace split: list.splits)

lemma rmatch_group_tail:
  "concat (map (rmatch (Lit CHR ''}'')) (rmatch (Star noBrace) s)) = optList (closeGroup s)"
proof (induction s)
  case Nil
  then show ?case by (subst rmatch_star_noBrace) (simp add: optList_def rmatch_Lit)
next
  case (Cons c cs)
  show ?case
  proof (cases "c = CHR ''{'' \<or> c = CHR ''}''")
    case True
    then have "rmatch (Star noBrace) (c # cs) = [c # cs]"
      by (subst rmatch_star_noBrace) simp
    then show ?thesis using True by (auto simp: optList_def rmatch_Lit)
  next
    case False
    then have e: "rmatch (Star noBrace) (c # cs) = rmatch (Star noBrace) cs @ [c # cs]"
      by (subst rmatch_star_noBrace) simp
    have "rmatch (Lit CHR ''}'') (c # cs) = []"
      using False by (simp add: rmatch_Lit)
    then show ?thesis using Cons.IH False by (simp add: e)
  qed
qed

lemma rmatch_group:
  "rmatch groupRegex s =
     (case s of [] \<Rightarrow> [] | c # cs \<Rightarrow> if c = CHR ''{'' then optList (closeGroup cs) else [])"
  by (cases s) (auto simp: rmatch.simps(3) rmatch_Lit rmatch_group_tail)

lemma rmatch_item:
  "rmatch itemRegex s =
     (case s of
        [] \<Rightarrow> []
      | c # cs \<Rightarrow>
          if c = CHR ''{'' then optList (closeGroup cs)
          else if c = CHR ''}'' then [] else [cs])"
  by (cases s) (auto simp: rmatch.simps(4) rmatch_noBrace rmatch_group)

lemma closeNested_closeGroup:
  "closeNested s = (case closeGroup s of None \<Rightarrow> None | Some r \<Rightarrow> closeTop r)"
  by (induction s) auto

lemma rmatch_star_item:
  "rmatch (Star itemRegex) s =
     (case s of
        [] \<Rightarrow> [[]]
      | c # cs \<Rightarrow>
          if c = CHR ''{'' then
            (case closeGroup cs of None \<Rightarrow> [s] | Some r \<Rightarrow> rmatch (Star itemRegex) r @ [s])
          else if c = CHR ''}'' then [s]
          else rmatch (Star itemRegex) cs @ [s])"
proof (cases s)
  case Nil
  then show ?thesis by (subst rmatch.simps(5)) (simp add: rmatch_item)
next
  case (Cons c cs)
  show ?thesis
  proof (cases "closeGroup cs")
    case None
    then show ?thesis
      using Cons by (subst rmatch.simps(5)) (simp add: rmatch_item optList_def)
  next
    case (Some r)
    then have "length r < length s" using closeGroup_shorter Cons by fastforce
    then show ?thesis
      using Cons Some by (subst rmatch.simps(5)) (simp add: rmatch_item optList_def)
  qed
qed

lemma rmatch_body:
  "concat (map (rmatch (Lit CHR ''}'')) (rmatch (Star itemRegex) s)) = optList (closeTop s)"
proof (induction "length s" arbitrary: s rule: less_induct)
  case less
  show ?case
  proof (cases s)
    case Nil
    then show ?thesis by (subst rmatch_star_item) (simp add: optList_def rmatch_Lit)
  next
    case (Cons c cs)
    show ?thesis
    proof (cases "c = CHR ''{''")
      case True
      show ?thesis
      proof (cases "closeGroup cs")
        case None
        then show ?thesis
          using Cons True
          by (subst rmatch_star_item) (simp add: optList_def closeNested_closeGroup rmatch_Lit)
      next
        case (Some r)
        then have "length r < length s" using closeGroup_shorter Cons by fastforce
        then have "concat (map (rmatch (Lit CHR ''}'')) (rmatch (Star itemRegex) r)) =
                     optList (closeTop r)"
          by (rule less)
        then show ?thesis
          using Cons True Some
          by (subst rmatch_star_item) (simp add: closeNested_closeGroup rmatch_Lit)
      qed
    next
      case False
      show ?thesis
      proof (cases "c = CHR ''}''")
        case True
        then show ?thesis
          using Cons by (subst rmatch_star_item) (simp add: optList_def rmatch_Lit)
      next
        case nc: False
        have "concat (map (rmatch (Lit CHR ''}'')) (rmatch (Star itemRegex) cs)) =
                     optList (closeTop cs)"
          using less [of cs] Cons by simp
        then show ?thesis
          using Cons False nc by (subst rmatch_star_item) (simp add: rmatch_Lit)
      qed
    qed
  qed
qed

lemma rmatch_jsonRegex:
  "rmatch jsonRegex s =
     (case s of [] \<Rightarrow> [] | c # cs \<Rightarrow> if c = CHR ''{'' then optList (closeTop cs) else [])"
proof (cases s)
  case Nil
  then show ?thesis by (simp add: jsonRegex_def rmatch.simps(3) rmatch_Lit)
next
  case (Cons c cs)
  have "rmatch (Cat (Star itemRegex) (Lit CHR ''}'')) cs = optList (closeTop cs)"
    using rmatch_body [of cs] by (simp only: rmatch.simps(3))
  then show ?thesis
    using Cons by (simp add: jsonRegex_def rmatch.simps(3) [of "Lit CHR ''{''"] rmatch_Lit)
qed


lemma closeTop_shorter: "closeTop s = Some r \<Longrightarrow> length r < length s"
  and closeNested_shorter: "closeNested s = Some r \<Longrightarrow> length r < length s"
  by (induction s and s rule: closeTop_closeNested.induct) (auto split: if_splits)

lemma closeTop_body:
  "closeTop s = Some r \<Longrightarrow> \<exists>b. s = b @ CHR ''}'' # r \<and> topLevel b"
  and closeNested_body:
  "closeNested s = Some r \<Longrightarrow> \<exists>b. s = b @ CHR ''}'' # r \<and> nested b"
proof (induction s and s rule: closeTop_closeNested.induct)
  case 1
  then show ?case by simp
next
  case (2 c cs)
  show ?case
  proof (cases "c = CHR ''}''")
    case True
    with 2 have "c # cs = [] @ CHR ''}'' # r \<and> topLevel []" by simp
    then show ?thesis by blast
  next
    case False
    then obtain b where "cs = b @ CHR ''}'' # r" and "if c = CHR ''{'' then nested b else topLevel b"
      using 2 by (auto split: if_splits)
    then have "c # cs = (c # b) @ CHR ''}'' # r \<and> topLevel (c # b)"
      using False by simp
    then show ?thesis by blast
  qed
next
  case 3
  then show ?case by simp
next
  case (4 c cs)
  show ?case
  proof (cases "c = CHR ''}''")
    case True
    with 4 obtain b where "cs = b @ CHR ''}'' # r" and "topLevel b" by auto
    then have "c # cs = (c # b) @ CHR ''}'' # r \<and> nested (c # b)"
      using True by simp
    then show ?thesis by blast
  next
    case False
    then obtain b where "cs = b @ CHR ''}'' # r" and "nested b"
      using 4 by (auto split: if_splits)
    then have "c # cs = (c # b) @ CHR ''}'' # r \<and> nested (c # b)"
      using False 4 by (auto split: if_splits)
    then show ?thesis by blast
  qed
qed

lemma topLevel_close: "topLevel b \<Longrightarrow> closeTop (b @ CHR ''}'' # r) = Some r"
  and nested_close: "nested b \<Longrightarrow> closeNested (b @ CHR ''}'' # r) = Some r"
  by (induction b and b rule: topLevel_nested.induct) (auto split: if_splits)

lemma balancedObject_iff:
  "balancedObject t \<longleftrightarrow> (\<exists>b. t = CHR ''{'' # b @ ''}'' \<and> topLevel b)"
proof
  assume "balancedObject t"
  then obtain cs where t: "t = CHR ''{'' # cs" and ne: "cs \<noteq> []"
    and l: "last cs = CHR ''}''" and b: "topLevel (butlast cs)"
    by (auto simp: balancedObject_def split: list.splits)
  from ne l have "cs = butlast cs @ ''}''"
    using append_butlast_last_id [of cs] by simp
  with t b show "\<exists>b. t = CHR ''{'' # b @ ''}'' \<and> topLevel b" by blast
next
  assume "\<exists>b. t = CHR ''{'' # b @ ''}'' \<and> topLevel b"
  then show "balancedObject t" by (auto simp: balancedObject_def)
qed

lemma balanced_prefix_close:
  assumes "balancedObject t"
  shows "\<exists>cs. t @ r = CHR ''{'' # cs \<and> closeTop cs = Some r"
proof -
  from assms obtain b where t: "t = CHR ''{'' # b @ ''}''" and b: "topLevel b"
    using balancedObject_iff by blast
  have "t @ r = CHR ''{'' # (b @ CHR ''}'' # r)" by (simp add: t)
  moreover have "closeTop (b @ CHR ''}'' # r) = Some r" using b by (rule topLevel_close)
  ultimately show ?thesis by blast
qed

lemma close_balanced_prefix:
  assumes "closeTop cs = Some r"
  shows "\<exists>t. CHR ''{'' # cs = t @ r \<and> balancedObject t
             \<and> take (Suc (length cs) - length r) (CHR ''{'' # cs) = t"
proof -
  from assms obtain b where cs: "cs = b @ CHR ''}'' # r" and b: "topLevel b"
    using closeTop_body by blast
  let ?t = "CHR ''{'' # b @ ''}''"
  have "CHR ''{'' # cs = ?t @ r" by (simp add: cs)
  moreover have "balancedObject ?t" using b balancedObject_iff by blast
  moreover have "take (Suc (length cs) - length r) (CHR ''{'' # cs) = ?t"
    by (simp add: cs)
  ultimately show ?thesis by blast
qed

lemma find_balanced_prefix:
  "find balancedObject (prefixes s) =
     (case s of
        [] \<Rightarrow> None
      | c # cs \<Rightarrow>
          if c = CHR ''{'' then
            (case closeTop cs of None \<Rightarrow> None | Some r \<Rightarrow> Some (take (length s - length r) s))
          else None)"
proof (cases "find balancedObject (prefixes s)")
  case None
  then have no: "\<And>t. prefix t s \<Longrightarrow> \<not> balancedObject t"
    by (auto simp: find_None_iff)
  have "closeTop cs \<noteq> Some r" if "s = CHR ''{'' # cs" for cs r
  proof
    assume "closeTop cs = Some r"
    then obtain t where "CHR ''{'' # cs = t @ r" and "balancedObject t"
      using close_balanced_prefix by blast
    then show False using no [of t] that by (auto simp: prefix_def)
  qed
  then show ?thesis using None by (auto split: list.splits option.splits)
next
  case (Some t)
  then have b: "balancedObject t" and "t \<in> set (prefixes s)"
    by (metis find_Some_iff, metis find_Some_iff nth_mem)
  then have p: "prefix t s" by (simp only: in_set_prefixes)
  from p obtain r where s: "s = t @ r" by (auto simp: prefix_def)
  from b obtain cs where cs: "t @ r = CHR ''{'' # cs" and c: "closeTop cs = Some r"
    using balanced_prefix_close by blast
  have "take (length s - length r) s = t" by (simp add: s)
  then show ?thesis using Some s cs c by simp
qed

lemma extractJson_matches:
  "extractJson s = (case matches jsonRegex s of [] \<Rightarrow> [] | m # _ \<Rightarrow> m)"
  by (simp add: extractJson_def String_match_def split: list.splits)

lemma matches_jsonRegex:
  "matches jsonRegex s =
     (case s of
        [] \<Rightarrow> []
      | c # cs \<Rightarrow>
          if c = CHR ''{'' then
            (case closeTop cs of
               None \<Rightarrow> matches jsonRegex cs
             | Some r \<Rightarrow> take (length s - length r) s # matches jsonRegex r)
          else matches jsonRegex cs)"
proof (cases s)
  case Nil
  then show ?thesis by (subst matches.simps) (simp add: rmatch_jsonRegex)
next
  case (Cons c cs)
  show ?thesis
  proof (cases "closeTop cs")
    case None
    then show ?thesis
      using Cons by (subst matches.simps) (simp add: rmatch_jsonRegex optList_def)
  next
    case (Some r)
    then have "length r < length s" using closeTop_shorter Cons by fastforce
    then show ?thesis
      using Cons Some by (subst matches.simps) (simp add: rmatch_jsonRegex optList_def)
  qed
qed

lemma extractJson_rec:
  "extractJson s =
     (case s of
        [] \<Rightarrow> []
      | c # cs \<Rightarrow>
          if c = CHR ''{'' then
            (case closeTop cs of
               None \<Rightarrow> extractJson cs
             | Some r \<Rightarrow> take (length s - length r) s)
          else extractJson cs)"
  by (subst extractJson_matches, subst matches_jsonRegex)
     (simp add: extractJson_matches split: list.splits option.splits)

lemma firstBalanced_rec:
  "firstBalanced s =
     (case s of
        [] \<Rightarrow> []
      | c # cs \<Rightarrow>
          if c = CHR ''{'' then
            (case closeTop cs of
               None \<Rightarrow> firstBalanced cs
             | Some r \<Rightarrow> take (length s - length r) s)
          else firstBalanced cs)"
proof (cases s)
  case Nil
  then show ?thesis by simp
next
  case (Cons c cs)
  have "firstBalanced (c # cs) =
          (case find balancedObject (prefixes (c # cs)) of
             Some t \<Rightarrow> t | None \<Rightarrow> firstBalanced cs)"
    by (rule firstBalanced.simps(2))
  also have "\<dots> = (if c = CHR ''{'' then
            (case closeTop cs of
               None \<Rightarrow> firstBalanced cs
             | Some r \<Rightarrow> take (length (c # cs) - length r) (c # cs))
          else firstBalanced cs)"
    by (simp only: find_balanced_prefix list.case) (simp split: option.splits)
  finally have "firstBalanced (c # cs) =
          (if c = CHR ''{'' then
            (case closeTop cs of
               None \<Rightarrow> firstBalanced cs
             | Some r \<Rightarrow> take (length (c # cs) - length r) (c # cs))
          else firstBalanced cs)" .
  then show ?thesis by (simp only: Cons list.case)
qed

lemma extractJson_eq_firstBalanced: "extractJson s = firstBalanced s"
proof (induction s)
  case Nil
  then show ?case by (subst extractJson_rec) simp
next
  case (Cons c cs)
  then show ?case
    by (subst extractJson_rec, subst firstBalanced_rec) (simp split: option.splits)
qed

lemma closeTop_has_brace: "closeTop s = Some r \<Longrightarrow> CHR ''}'' \<in> set s"
  using closeTop_body by fastforce

lemma extractJson_no_braces:
  "CHR ''{'' \<notin> set s \<or> CHR ''}'' \<notin> set s \<Longrightarrow> extractJson s = []"
proof (induction s)
  case Nil
  then show ?case by (subst extractJson_rec) simp
next
  case (Cons c cs)
  then have ih: "extractJson cs = []" by auto
  have "closeTop cs = None" if "c = CHR ''{''"
  proof (cases "closeTop cs")
    case None
    then show ?thesis .
  next
    case (Some r)
    then have "CHR ''}'' \<in> set cs" by (rule closeTop_has_brace)
    then show ?thesis using Cons.prems that by simp
  qed
  then show ?case using ih by (subst extractJson_rec) simp
qed

lemma extractJson_balanced_prefix:
  assumes "balancedObject t"
  shows "extractJson (t @ q) = t"
proof -
  from assms obtain cs where cs: "t @ q = CHR ''{'' # cs" and c: "closeTop cs = Some q"
    using balanced_prefix_close by blast
  have "take (length (t @ q) - length q) (t @ q) = t" by simp
  then show ?thesis
    using cs c by (subst extractJson_rec) (simp del: length_append)
qed

lemma extractJson_noise:
  assumes "balancedObject t" and "CHR ''{'' \<notin> set p"
  shows "extractJson (p @ t @ q) = t"
  using assms(2)
proof (induction p)
  case Nil
  then show ?case using extractJson_balanced_prefix [OF assms(1)] by simp
next
  case (Cons c p)
  then have "c \<noteq> CHR ''{''" and "extractJson (p @ t @ q) = t" by auto
  then show ?case by (subst extractJson_rec) simp
qed

lemma extractJson_result:
  "(extractJson s \<noteq> [] \<longrightarrow> balancedObject (extractJson s) \<and> sublist (extractJson s) s)
   \<and> (extractJson s = [] \<longrightarrow> \<not> (\<exists>t. sublist t s \<and> balancedObject t))"
proof (induction s)
  case Nil
  have "\<not> balancedObject []" by (simp add: balancedObject_def)
  then show ?case by (subst extractJson_rec, subst extractJson_rec) simp
next
  case (Cons c cs)
  show ?case
  proof (cases "c = CHR ''{'' \<and> closeTop cs \<noteq> None")
    case True
    then obtain r where r: "closeTop cs = Some r" by auto
    then obtain t where t: "CHR ''{'' # cs = t @ r" "balancedObject t"
      "take (Suc (length cs) - length r) (CHR ''{'' # cs) = t"
      using close_balanced_prefix by blast
    have e: "extractJson (c # cs) = t"
      using True r t(3) by (subst extractJson_rec) simp
    have "t \<noteq> []" using t(2) by (auto simp: balancedObject_def)
    moreover have "sublist t (c # cs)"
      using True t(1) by (metis append_Nil sublist_appendI)
    ultimately show ?thesis using e t(2) by simp
  next
    case False
    then have e: "extractJson (c # cs) = extractJson cs"
      by (subst extractJson_rec) (auto split: option.splits)
    have np: "\<not> balancedObject t" if "prefix t (c # cs)" for t
    proof
      assume "balancedObject t"
      moreover from that obtain r where "c # cs = t @ r" by (auto simp: prefix_def)
      ultimately show False
        using balanced_prefix_close [of t r] False by auto
    qed
    show ?thesis
      using Cons e np by (auto simp: sublist_Cons_right)
  qed
qed

text \<open>
  C9. For every input, \<open>extractJson\<close> returns the first substring that starts with an
  opening brace, ends with the matching closing brace and is balanced to one level of
  nesting, or the empty string when there is none: a non-empty result is such a substring
  of the input, and an empty result means that the input has no such substring. An input
  without an opening or without a closing brace yields the empty string, and a balanced
  text between \<open>noise\<close> and \<open>noise\<close>, or after any text without an opening brace and
  before any text, is returned exactly.
\<close>

theorem extractJson_first_balanced:
  "extractJson s = firstBalanced s
   \<and> (extractJson s \<noteq> [] \<longrightarrow> balancedObject (extractJson s) \<and> sublist (extractJson s) s)
   \<and> (extractJson s = [] \<longrightarrow> \<not> (\<exists>t. sublist t s \<and> balancedObject t))
   \<and> (CHR ''{'' \<notin> set s \<or> CHR ''}'' \<notin> set s \<longrightarrow> extractJson s = [])
   \<and> (balancedObject t \<longrightarrow> extractJson (''noise'' @ t @ ''noise'') = t)
   \<and> (balancedObject t \<and> CHR ''{'' \<notin> set p \<longrightarrow> extractJson (p @ t @ q) = t)"
proof -
  have "CHR ''{'' \<notin> set ''noise''" by simp
  then have "balancedObject t \<longrightarrow> extractJson (''noise'' @ t @ ''noise'') = t"
    using extractJson_noise by blast
  then show ?thesis
    using extractJson_eq_firstBalanced [of s] extractJson_result [of s]
      extractJson_no_braces [of s] extractJson_noise [of t p q]
    by blast
qed

theorem extractJson_first_balanced_witness:
  \<open>extractJson ''say {"a":{"b":1}} ok'' \<noteq> []
   \<and> balancedObject (extractJson ''say {"a":{"b":1}} ok'')
   \<and> sublist (extractJson ''say {"a":{"b":1}} ok'') ''say {"a":{"b":1}} ok''
   \<and> CHR ''{'' \<notin> set ''no braces here''
   \<and> extractJson ''no braces here'' = []
   \<and> \<not> (\<exists>t. sublist t ''no braces here'' \<and> balancedObject t)
   \<and> balancedObject ''{"a":{"b":1}}''
   \<and> extractJson (''noise'' @ ''{"a":{"b":1}}'' @ ''noise'') = ''{"a":{"b":1}}''
   \<and> CHR ''{'' \<notin> set ''reply: ''
   \<and> extractJson (''reply: '' @ ''{"a":{"b":1}}'' @ '' {done}'') = ''{"a":{"b":1}}''\<close>
proof -
  have n: \<open>extractJson ''say {"a":{"b":1}} ok'' \<noteq> []\<close> by code_simp
  have b: \<open>balancedObject ''{"a":{"b":1}}''\<close> by code_simp
  have c: "CHR ''{'' \<notin> set ''no braces here''" "CHR ''{'' \<notin> set ''reply: ''" by simp_all
  show ?thesis
    using n b c
      extractJson_first_balanced [where s = \<open>''say {"a":{"b":1}} ok''\<close>
        and t = \<open>''{"a":{"b":1}}''\<close> and p = "''reply: ''" and q = "'' {done}''"]
      extractJson_first_balanced [where s = "''no braces here''"
        and t = \<open>''{"a":{"b":1}}''\<close> and p = "''reply: ''" and q = "'' {done}''"]
    by blast
qed


section \<open>\<open>JSON.parse\<close>: properties\<close>

declare parseValue.simps [simp del] parseElements.simps [simp del] parseMembers.simps [simp del]

lemma parseInteger_shorter: "parseInteger s = Some (ip, r) \<Longrightarrow> length r < length s"
  by (cases s) (auto simp: parseInteger_def length_dropWhile_le le_imp_less_Suc split: if_splits)

lemma parseFraction_le: "parseFraction s = Some (fp, r) \<Longrightarrow> length r \<le> length s"
  by (cases s) (auto simp: parseFraction_def length_dropWhile_le le_SucI split: if_splits)

lemma parseExponent_le: "parseExponent s = Some (e, r) \<Longrightarrow> length r \<le> length s"
proof (cases s)
  case Nil
  then show "parseExponent s = Some (e, r) \<Longrightarrow> length r \<le> length s"
    by (simp add: parseExponent_def)
next
  case (Cons c cs)
  assume a: "parseExponent s = Some (e, r)"
  show "length r \<le> length s"
  proof (cases "c = CHR ''e'' \<or> c = CHR ''E''")
    case False
    with a Cons show ?thesis by (auto simp: parseExponent_def)
  next
    case True
    obtain neg ds where nd: "(case cs of [] \<Rightarrow> (False, cs)
                    | d # rest \<Rightarrow> if d = CHR ''-'' then (True, rest)
                        else if d = CHR ''+'' then (False, rest) else (False, cs)) = (neg, ds)"
      by (meson surj_pair)
    then have "length ds \<le> length cs"
      by (auto split: list.splits if_splits)
    moreover have "r = dropWhile isDigit ds"
      using a Cons True nd by (auto simp: parseExponent_def split: if_splits)
    ultimately show ?thesis
      using Cons length_dropWhile_le [of isDigit ds] by simp
  qed
qed

lemma parseNumber_shorter: "parseNumber s = Some (v, r) \<Longrightarrow> length r < length s"
proof -
  assume a: "parseNumber s = Some (v, r)"
  obtain neg s1 where ns: "(case s of [] \<Rightarrow> (False, s)
       | c # cs \<Rightarrow> if c = CHR ''-'' then (True, cs) else (False, s)) = (neg, s1)"
    by (meson surj_pair)
  then have l1: "length s1 \<le> length s" by (auto split: list.splits if_splits)
  from a ns obtain ip s2 fp s3 e where
    "parseInteger s1 = Some (ip, s2)" "parseFraction s2 = Some (fp, s3)" "parseExponent s3 = Some (e, r)"
    by (auto simp: parseNumber_def Let_def split: option.splits prod.splits)
  then show ?thesis
    using l1 parseInteger_shorter parseFraction_le parseExponent_le
    by (meson le_trans less_le_trans not_le)
qed

lemma parseElements_shorter: "parseElements s acc = Some (v, r) \<Longrightarrow> length r < length s"
proof (induction "length s" arbitrary: s acc rule: less_induct)
  case less
  from less.prems obtain v0 r0 where
    pv: "parseValue s = Some (v0, r0)" and len: "length r0 < length s"
    by (subst (asm) parseElements.simps) (auto split: option.splits if_splits)
  from less.prems pv len obtain d ds where
    sk: "skipWs r0 = d # ds"
    by (subst (asm) parseElements.simps) (auto split: list.splits)
  have lds: "length ds < length s"
    using skipWs_Cons_shorter [OF sk] len by simp
  show ?case
  proof (cases "d = CHR '',''")
    case True
    then have "parseElements (skipWs ds) (acc @ [v0]) = Some (v, r)"
      using less.prems pv len sk by (subst (asm) parseElements.simps) simp
    moreover have "length (skipWs ds) < length s"
      using lds length_skipWs_le [of ds] by simp
    ultimately have "length r < length (skipWs ds)"
      using less.hyps by blast
    then show ?thesis using lds length_skipWs_le [of ds] by simp
  next
    case False
    then have "r = ds"
      using less.prems pv len sk
      by (subst (asm) parseElements.simps) (auto split: if_splits)
    then show ?thesis using lds by simp
  qed
qed

lemma parseMembers_result:
  "parseMembers s acc = Some (v, r) \<Longrightarrow> length r < length s \<and> (\<exists>kvs. v = JObj kvs)"
proof (induction "length s" arbitrary: s acc rule: less_induct)
  case less
  from less.prems obtain q cs where s: "s = q # cs" and q: "q = CHR 0x22"
    by (subst (asm) parseMembers.simps) (auto split: list.splits if_splits)
  from less.prems s q obtain k r1 where pc: "parseChars cs = Some (k, r1)"
    by (subst (asm) parseMembers.simps) (auto split: option.splits)
  from less.prems s q pc obtain d ds where sk: "skipWs r1 = d # ds" and d: "d = CHR '':''"
    by (subst (asm) parseMembers.simps) (auto split: list.splits if_splits)
  from less.prems s q pc sk d obtain v0 r0 where
    pv: "parseValue (skipWs ds) = Some (v0, r0)" and len: "length r0 < length s"
    by (subst (asm) parseMembers.simps) (auto split: option.splits if_splits)
  from less.prems s q pc sk d pv len obtain d' ds' where sk': "skipWs r0 = d' # ds'"
    by (subst (asm) parseMembers.simps) (auto split: list.splits)
  have lds: "length ds' < length s"
    using skipWs_Cons_shorter [OF sk'] len by simp
  show ?case
  proof (cases "d' = CHR '',''")
    case True
    then have "parseMembers (skipWs ds') (AList.update k v0 acc) = Some (v, r)"
      using less.prems s q pc sk d pv len sk' by (subst (asm) parseMembers.simps) simp
    moreover have "length (skipWs ds') < length s"
      using lds length_skipWs_le [of ds'] by simp
    ultimately have "length r < length (skipWs ds') \<and> (\<exists>kvs. v = JObj kvs)"
      using less.hyps by blast
    then show ?thesis using lds length_skipWs_le [of ds'] by simp
  next
    case False
    then have "r = ds' \<and> v = JObj (AList.update k v0 acc)"
      using less.prems s q pc sk d pv len sk'
      by (subst (asm) parseMembers.simps) (auto split: if_splits)
    then show ?thesis using lds by simp
  qed
qed

lemma parseValue_brace:
  "parseValue (CHR ''{'' # cs) = Some (v, r) \<Longrightarrow> \<exists>kvs. v = JObj kvs"
  by (subst (asm) parseValue.simps) (auto split: list.splits if_splits dest: parseMembers_result)

lemma parseValue_shorter: "parseValue s = Some (v, r) \<Longrightarrow> length r < length s"
proof -
  assume a: "parseValue s = Some (v, r)"
  then obtain c cs where s: "s = c # cs"
    by (subst (asm) parseValue.simps) (auto split: list.splits)
  show ?thesis
  proof (cases "c = CHR ''{''")
    case True
    with a s obtain d ds where sk: "skipWs cs = d # ds"
      by (subst (asm) parseValue.simps) (auto split: list.splits)
    show ?thesis
    proof (cases "d = CHR ''}''")
      case True
      then have "r = ds"
        using a s \<open>c = CHR ''{''\<close> sk by (subst (asm) parseValue.simps) simp
      then show ?thesis using skipWs_Cons_shorter [OF sk] s by simp
    next
      case False
      then have "parseMembers (d # ds) [] = Some (v, r)"
        using a s \<open>c = CHR ''{''\<close> sk by (subst (asm) parseValue.simps) simp
      then have "length r < length (d # ds)" using parseMembers_result by blast
      then show ?thesis using length_skipWs_le [of cs] sk s by simp
    qed
  next
    case nb: False
    show ?thesis
    proof (cases "c = CHR ''[''")
      case True
      with a s nb obtain d ds where sk: "skipWs cs = d # ds"
        by (subst (asm) parseValue.simps) (auto split: list.splits)
      show ?thesis
      proof (cases "d = CHR '']''")
        case True
        then have "r = ds"
          using a s nb \<open>c = CHR ''[''\<close> sk by (subst (asm) parseValue.simps) simp
        then show ?thesis using skipWs_Cons_shorter [OF sk] s by simp
      next
        case False
        then have "parseElements (d # ds) [] = Some (v, r)"
          using a s nb \<open>c = CHR ''[''\<close> sk by (subst (asm) parseValue.simps) simp
        then have "length r < length (d # ds)" using parseElements_shorter by blast
        then show ?thesis using length_skipWs_le [of cs] sk s by simp
      qed
    next
      case nk: False
      show ?thesis
      proof (cases "c = CHR 0x22")
        case True
        then have "map_option (\<lambda>(str, r). (JStr str, r)) (parseChars cs) = Some (v, r)"
          using a s nb nk by (subst (asm) parseValue.simps) simp
        then obtain str where "parseChars cs = Some (str, r)" by auto
        then show ?thesis using parseChars_shorter s by fastforce
      next
        case nq: False
        show ?thesis
        proof (cases "c = CHR ''-'' \<or> isDigit c")
          case True
          then have "parseNumber s = Some (v, r)"
            using a s nb nk nq by (subst (asm) parseValue.simps) auto
          then show ?thesis by (rule parseNumber_shorter)
        next
          case False
          then have "(prefix ''true'' s \<and> r = drop 4 s) \<or> (prefix ''false'' s \<and> r = drop 5 s)
                     \<or> (prefix ''null'' s \<and> r = drop 4 s)"
            using a s nb nk nq by (subst (asm) parseValue.simps) (auto split: if_splits)
          then show ?thesis by (auto simp: prefix_def)
        qed
      qed
    qed
  qed
qed

lemma JSON_parse_brace:
  assumes "startsWith text ''{''" and "JSON_parse text = Some v"
  shows "\<exists>kvs. v = JObj kvs"
proof -
  from assms(1) obtain cs where t: "text = CHR ''{'' # cs"
    by (auto simp: startsWith_def prefix_def)
  have "skipWs text = text"
    by (simp add: t skipWs_def isJsonWs_def)
  with assms(2) t obtain r where "parseValue (CHR ''{'' # cs) = Some (v, r)"
    by (auto simp: JSON_parse_def split: option.splits if_splits)
  then show ?thesis by (rule parseValue_brace)
qed

lemma JSON_parse_object_cases:
  assumes "startsWith text ''{''"
  shows "(JSON_parse text = None \<and> JSON_parse_object text = Inl SyntaxError)
         \<or> (\<exists>kvs. JSON_parse text = Some (JObj kvs) \<and> JSON_parse_object text = Inr kvs)"
proof (cases "JSON_parse text")
  case None
  then show ?thesis by (simp add: JSON_parse_object_def)
next
  case (Some v)
  with JSON_parse_brace [OF assms] obtain kvs where "v = JObj kvs" by blast
  with Some show ?thesis by (simp add: JSON_parse_object_def)
qed


section \<open>The safety filter: properties\<close>

lemma units_eq_iff [simp]: "units a = units b \<longleftrightarrow> a = b"
  by (simp add: units_def inj_map_eq_map inj_of_char)

lemma units_Nil [simp]: "units [] = []"
  by (simp add: units_def)

lemma units_eq_Nil_iff [simp]: "units s = [] \<longleftrightarrow> s = []"
  by (simp add: units_def)

lemma of_char_int_less: "(of_char c :: int) < 256"
proof -
  have "(of_char c :: int) = int (of_char c)" by (simp add: of_nat_of_char)
  moreover have "(of_char c :: nat) < 256" by simp
  ultimately show ?thesis by linarith
qed

lemma units_narrow: "list_all (\<lambda>u. u < 256) (units s)"
  by (simp add: units_def list_all_iff of_char_int_less)

lemma toLowerUnit_of_char: "toLowerUnit (of_char c) = of_char (toLowerChar c)"
proof -
  let ?n = "of_char c :: nat"
  have i: "(of_char c :: int) = int ?n"
    by (simp add: of_nat_of_char)
  have "?n < 256" by simp
  then have m: "?n \<le> 222 \<Longrightarrow> (?n + 32) mod 256 = ?n + 32" by simp
  have d: "toLowerChar c =
             (if (65 \<le> ?n \<and> ?n \<le> 90) \<or> (192 \<le> ?n \<and> ?n \<le> 222 \<and> ?n \<noteq> 215)
              then char_of (?n + 32) else c)"
    unfolding toLowerChar_def Let_def by (rule refl)
  show ?thesis
  proof (cases "(65 \<le> ?n \<and> ?n \<le> 90) \<or> (192 \<le> ?n \<and> ?n \<le> 222 \<and> ?n \<noteq> 215)")
    case True
    then have "toLowerChar c = char_of (?n + 32)"
      by (simp only: d if_True)
    then have "(of_char (toLowerChar c) :: nat) = ?n + 32"
      using True m by auto
    then have "(of_char (toLowerChar c) :: int) = int ?n + 32"
      by (metis of_nat_of_char of_nat_add of_nat_numeral)
    moreover have "toLowerUnit (int ?n) = int ?n + 32"
      using True by (auto simp: toLowerUnit_def)
    ultimately show ?thesis by (simp add: i)
  next
    case False
    then have "toLowerChar c = c"
      by (simp only: d if_False)
    moreover have "toLowerUnit (int ?n) = int ?n"
      using False by (auto simp: toLowerUnit_def)
    ultimately show ?thesis by (simp add: i)
  qed
qed

lemma toLowerCaseUnits_units: "toLowerCaseUnits unicodeLower (units s) = units (toLowerCase s)"
  using units_narrow [of s]
  by (simp add: toLowerCaseUnits_def) (simp add: units_def toLowerCase_def toLowerUnit_of_char)

lemma sublist_units: "sublist (units a) (units b) \<longleftrightarrow> sublist a b"
proof
  assume "sublist (units a) (units b)"
  then obtain ps ss where "units b = ps @ units a @ ss"
    by (auto simp: sublist_def)
  then obtain ps' as' ss' where b: "b = ps' @ as' @ ss'"
    and "map (of_char :: char \<Rightarrow> int) a = map of_char as'"
    by (auto simp: units_def map_eq_append_conv append_eq_map_conv)
  then have "as' = a"
    by (simp add: inj_map_eq_map inj_of_char)
  with b show "sublist a b" by (auto simp: sublist_def)
next
  assume "sublist a b"
  then show "sublist (units a) (units b)"
    unfolding units_def by (rule map_mono_sublist)
qed

lemma keywords_nonempty: "[] \<notin> set prohibitedKeywords"
  by (simp add: prohibitedKeywords_def)

lemma isProhibitedQuery_units:
  "isProhibitedQuery unicodeLower (Some (JStr q)) =
     Inr (\<exists>keyword \<in> set prohibitedKeywords.
            sublist (units keyword) (toLowerCaseUnits unicodeLower q))"
proof (cases "q = []")
  case True
  then show ?thesis
    using keywords_nonempty
    by (auto simp: isProhibitedQuery_def toLowerCaseUnits_def)
next
  case False
  then show ?thesis
    by (simp add: isProhibitedQuery_def includes_units_def list_ex_iff)
qed

lemma isProhibitedQuery_string:
  "isProhibitedQuery unicodeLower (Some (JStr (units s))) =
     Inr (\<exists>keyword \<in> set prohibitedKeywords. sublist keyword (toLowerCase s))"
  by (simp add: isProhibitedQuery_units toLowerCaseUnits_units sublist_units)

lemma isProhibitedQuery_falsy: "\<not> truthy v \<Longrightarrow> isProhibitedQuery unicodeLower v = Inr False"
  by (simp add: isProhibitedQuery_def)

lemma keyword_in_DROP:
  "\<exists>keyword \<in> set prohibitedKeywords. sublist keyword (toLowerCase ''DROP TABLE x'')"
  by code_simp

lemma keyword_in_drop:
  "\<exists>keyword \<in> set prohibitedKeywords. sublist keyword (toLowerCase ''drop table x'')"
  by code_simp

lemma no_keyword_in_benign:
  "\<not> (\<exists>keyword \<in> set prohibitedKeywords.
         sublist keyword (toLowerCase ''SELECT name FROM users WHERE id = $1''))"
  by code_simp

text \<open>
  C7. For a string, \<open>isProhibitedQuery\<close> returns true exactly when the lower-cased string
  contains one of the 33 listed keywords as a substring, whatever the case tables of the
  runtime. Hence two strings with the same lower-casing get the same answer,
  \<open>DROP TABLE x\<close> and \<open>drop table x\<close> are both prohibited, every falsy input and in
  particular the empty string is not prohibited, and the read query
  \<open>SELECT name FROM users WHERE id = $1\<close> is not prohibited.
\<close>

theorem isProhibitedQuery_keywords:
  "isProhibitedQuery unicodeLower (Some (JStr q)) =
     Inr (\<exists>keyword \<in> set prohibitedKeywords.
            sublist (units keyword) (toLowerCaseUnits unicodeLower q))
   \<and> isProhibitedQuery unicodeLower (Some (JStr (units s))) =
       Inr (\<exists>keyword \<in> set prohibitedKeywords. sublist keyword (toLowerCase s))
   \<and> (toLowerCaseUnits unicodeLower q = toLowerCaseUnits unicodeLower q' \<longrightarrow>
        isProhibitedQuery unicodeLower (Some (JStr q)) =
        isProhibitedQuery unicodeLower (Some (JStr q')))
   \<and> (toLowerCase s = toLowerCase t \<longrightarrow>
        isProhibitedQuery unicodeLower (Some (JStr (units s))) =
        isProhibitedQuery unicodeLower (Some (JStr (units t))))
   \<and> isProhibitedQuery unicodeLower (Some (JStr (units ''DROP TABLE x''))) = Inr True
   \<and> isProhibitedQuery unicodeLower (Some (JStr (units ''drop table x''))) = Inr True
   \<and> (\<not> truthy v \<longrightarrow> isProhibitedQuery unicodeLower v = Inr False)
   \<and> isProhibitedQuery unicodeLower (Some (JStr (units ''''))) = Inr False
   \<and> isProhibitedQuery unicodeLower
         (Some (JStr (units ''SELECT name FROM users WHERE id = $1''))) = Inr False
   \<and> length prohibitedKeywords = 33"
proof -
  have "length prohibitedKeywords = 33" by (simp add: prohibitedKeywords_def)
  moreover have "isProhibitedQuery unicodeLower (Some (JStr (units ''''))) = Inr False"
    by (simp add: isProhibitedQuery_falsy)
  ultimately show ?thesis
    using isProhibitedQuery_units [of unicodeLower q] isProhibitedQuery_units [of unicodeLower q']
      isProhibitedQuery_string [of unicodeLower s] isProhibitedQuery_string [of unicodeLower t]
      isProhibitedQuery_string [of unicodeLower "''DROP TABLE x''"]
      isProhibitedQuery_string [of unicodeLower "''drop table x''"]
      isProhibitedQuery_string [of unicodeLower "''SELECT name FROM users WHERE id = $1''"]
      isProhibitedQuery_falsy [of v unicodeLower]
      keyword_in_DROP keyword_in_drop no_keyword_in_benign
    by simp
qed

theorem isProhibitedQuery_keywords_witness:
  "toLowerCase ''Drop'' = toLowerCase ''dROP''
   \<and> isProhibitedQuery asciiLower (Some (JStr (units ''Drop''))) =
       isProhibitedQuery asciiLower (Some (JStr (units ''dROP'')))
   \<and> toLowerCaseUnits asciiLower [68, 82, 79, 80, 8217] =
       toLowerCaseUnits asciiLower [100, 114, 111, 112, 8217]
   \<and> isProhibitedQuery asciiLower (Some (JStr [68, 82, 79, 80, 8217])) =
       isProhibitedQuery asciiLower (Some (JStr [100, 114, 111, 112, 8217]))
   \<and> \<not> truthy (Some JNull) \<and> isProhibitedQuery asciiLower (Some JNull) = Inr False"
proof -
  have l: "toLowerCase ''Drop'' = toLowerCase ''dROP''" by code_simp
  have w: "toLowerCaseUnits asciiLower [68, 82, 79, 80, 8217] =
       toLowerCaseUnits asciiLower [100, 114, 111, 112, 8217]" by code_simp
  have f: "\<not> truthy (Some JNull)" by simp
  show ?thesis
    using l w f
      isProhibitedQuery_keywords [where unicodeLower = asciiLower and s = "''Drop''"
        and t = "''dROP''" and v = "Some JNull" and q = "[68, 82, 79, 80, 8217]"
        and q' = "[100, 114, 111, 112, 8217]"]
    by blast
qed

section \<open>The query flow: properties\<close>

lemma getSQL_readFile_fails: "getSQL unicodeLower env (Inl e) service userPrompt = ([], Inl e)"
  by (simp add: getSQL_def)

lemma getSQL_returns:
  "\<exists>out q. getSQL unicodeLower env (Inr dbSchema) service userPrompt = (out, Inr q)"
  by (auto simp: getSQL_def Let_def split: prod.splits sum.splits bool.splits)

lemma getSQL_call_fails:
  assumes "sqlCompletion env service dbSchema userPrompt = (out, Inl e)"
  shows "getSQL unicodeLower env (Inr dbSchema) service userPrompt =
           (out @ [ConsoleLog [Exn e]], Inr defaultQueryData)"
  using assms by (simp add: getSQL_def)

lemma prohibited_fallback:
  "prohibited unicodeLower
     [(units ''sql'', JStr (units '''')), (units ''paramValues'', JArr []),
      (units ''error'', JStr (units results))] =
     Inr (\<exists>keyword \<in> set prohibitedKeywords. sublist keyword (toLowerCase results))"
proof -
  have "isProhibitedQuery unicodeLower (Some (JStr [])) = Inr False"
    by (simp add: isProhibitedQuery_def)
  then show ?thesis
    by (simp add: prohibited_def getProp_def isProhibitedQuery_string [of unicodeLower results])
qed

lemma getSQL_not_in_braces:
  assumes "sqlCompletion env service dbSchema userPrompt = (out, Inr results)"
    and "\<not> (startsWith results ''{'' \<and> endsWith results ''}'')"
  shows "getSQL unicodeLower env (Inr dbSchema) service userPrompt =
           (out, Inr [(units ''sql'', JStr (units '''')), (units ''paramValues'', JArr []),
                      (units ''error'',
                       JStr (units (if \<exists>keyword \<in> set prohibitedKeywords.
                                          sublist keyword (toLowerCase results)
                                    then ''Prohibited query.'' else results)))])"
proof -
  have "spread defaultQueryData [(units ''error'', JStr (units results))] =
          [(units ''sql'', JStr (units '''')), (units ''paramValues'', JArr []),
           (units ''error'', JStr (units results))]"
    by (simp add: spread_def defaultQueryData_def)
  then show ?thesis
    using assms prohibited_fallback [of unicodeLower results]
    by (auto simp add: getSQL_def setProp_def)
qed

lemma getSQL_parse_fails:
  assumes "sqlCompletion env service dbSchema userPrompt = (out, Inr results)"
    and "startsWith results ''{''" and "endsWith results ''}''"
    and "JSON_parse results = None"
  shows "getSQL unicodeLower env (Inr dbSchema) service userPrompt =
           (out @ [ConsoleLog [Exn SyntaxError]], Inr defaultQueryData)"
proof -
  have "results \<noteq> []" using assms(2) by (auto simp: startsWith_def)
  moreover have "JSON_parse_object results = Inl SyntaxError"
    using assms(4) by (simp add: JSON_parse_object_def)
  ultimately show ?thesis using assms by (simp add: getSQL_def)
qed

lemma getSQL_parsed:
  assumes "sqlCompletion env service dbSchema userPrompt = (out, Inr results)"
    and "startsWith results ''{''" and "endsWith results ''}''"
    and "JSON_parse results = Some (JObj kvs)"
  shows "getSQL unicodeLower env (Inr dbSchema) service userPrompt =
           (case prohibited unicodeLower kvs of
              Inl e \<Rightarrow> (out @ [ConsoleLog [Exn e]], Inr kvs)
            | Inr True \<Rightarrow>
                (out, Inr (setProp (setProp kvs ''sql'' (JStr (units ''''))) ''error''
                             (JStr (units ''Prohibited query.''))))
            | Inr False \<Rightarrow> (out, Inr kvs))"
proof -
  have "results \<noteq> []" using assms(2) by (auto simp: startsWith_def)
  moreover have "JSON_parse_object results = Inr kvs"
    using assms(4) by (simp add: JSON_parse_object_def)
  ultimately show ?thesis using assms by (simp add: getSQL_def)
qed

lemma map_of_setProp:
  "map_of (setProp obj k v) n = (if n = units k then Some v else map_of obj n)"
  by (simp add: setProp_def update_conv')

lemma getProp_setProp: "getProp (setProp obj k v) k' = (if k' = k then Some v else getProp obj k')"
  by (simp add: getProp_def map_of_setProp)

lemma prohibited_True_iff:
  "prohibited unicodeLower kvs = Inr True \<longleftrightarrow>
     isProhibitedQuery unicodeLower (getProp kvs ''sql'') = Inr True
     \<or> (isProhibitedQuery unicodeLower (getProp kvs ''sql'') = Inr False
        \<and> isProhibitedQuery unicodeLower (getProp kvs ''error'') = Inr True)"
  by (auto simp: prohibited_def split: sum.splits bool.splits)

text \<open>
  C1, as amended. \<open>getSQL\<close> raises to its caller exactly when reading \<open>db.schema\<close> fails:
  the read precedes the \<open>try\<close> block, so its error propagates and nothing is logged. Once
  the schema has been read \<open>getSQL\<close> never raises. An exception of the completion call or
  of \<open>JSON.parse\<close> is logged and swallowed, and the default all-empty result is returned;
  an exception of the safety filter is logged and swallowed, and the parsed reply is
  returned as it is.
\<close>

theorem getSQL_raises_only_on_read:
  "getSQL unicodeLower env (Inl e) service userPrompt = ([], Inl e)
   \<and> (\<exists>out q. getSQL unicodeLower env (Inr dbSchema) service userPrompt = (out, Inr q))
   \<and> (sqlCompletion env service dbSchema userPrompt = (out, Inl e') \<longrightarrow>
        getSQL unicodeLower env (Inr dbSchema) service userPrompt =
          (out @ [ConsoleLog [Exn e']], Inr defaultQueryData))
   \<and> (sqlCompletion env service dbSchema userPrompt = (out, Inr results)
        \<and> startsWith results ''{'' \<and> endsWith results ''}'' \<and> JSON_parse results = None \<longrightarrow>
        getSQL unicodeLower env (Inr dbSchema) service userPrompt =
          (out @ [ConsoleLog [Exn SyntaxError]], Inr defaultQueryData))
   \<and> (sqlCompletion env service dbSchema userPrompt = (out, Inr results)
        \<and> startsWith results ''{'' \<and> endsWith results ''}''
        \<and> JSON_parse results = Some (JObj kvs) \<and> prohibited unicodeLower kvs = Inl e' \<longrightarrow>
        getSQL unicodeLower env (Inr dbSchema) service userPrompt = (out @ [ConsoleLog [Exn e']], Inr kvs))"
proof (intro conjI impI)
  show "getSQL unicodeLower env (Inl e) service userPrompt = ([], Inl e)"
    by (rule getSQL_readFile_fails)
  show "\<exists>out q. getSQL unicodeLower env (Inr dbSchema) service userPrompt = (out, Inr q)"
    by (rule getSQL_returns)
  show "getSQL unicodeLower env (Inr dbSchema) service userPrompt =
          (out @ [ConsoleLog [Exn e']], Inr defaultQueryData)"
    if "sqlCompletion env service dbSchema userPrompt = (out, Inl e')"
    using that by (rule getSQL_call_fails)
  show "getSQL unicodeLower env (Inr dbSchema) service userPrompt =
          (out @ [ConsoleLog [Exn SyntaxError]], Inr defaultQueryData)"
    if "sqlCompletion env service dbSchema userPrompt = (out, Inr results)
        \<and> startsWith results ''{'' \<and> endsWith results ''}'' \<and> JSON_parse results = None"
    using that getSQL_parse_fails by blast
  show "getSQL unicodeLower env (Inr dbSchema) service userPrompt = (out @ [ConsoleLog [Exn e']], Inr kvs)"
    if "sqlCompletion env service dbSchema userPrompt = (out, Inr results)
        \<and> startsWith results ''{'' \<and> endsWith results ''}''
        \<and> JSON_parse results = Some (JObj kvs) \<and> prohibited unicodeLower kvs = Inl e'"
    using that getSQL_parsed [of env service dbSchema userPrompt out results kvs] by simp
qed

theorem getSQL_raises_only_on_read_witness:
  \<open>sqlCompletion azureEnv (\<lambda>request. Inl TransportError) ''users(id, name)'' ''list users'' =
     ([ConsoleError [Text ''Error getting data:'', Exn TransportError]], Inl TransportError)
   \<and> getSQL asciiLower azureEnv (Inr ''users(id, name)'') (\<lambda>request. Inl TransportError) ''list users'' =
       ([ConsoleError [Text ''Error getting data:'', Exn TransportError],
         ConsoleLog [Exn TransportError]], Inr defaultQueryData)
   \<and> sqlCompletion azureEnv (replyWith ''{bad}'') ''users(id, name)'' ''list users'' =
       ([ConsoleLog [Text ''Azure OpenAI Output: \<newline>'', Text ''{bad}'']], Inr ''{bad}'')
   \<and> startsWith ''{bad}'' ''{'' \<and> endsWith ''{bad}'' ''}'' \<and> JSON_parse ''{bad}'' = None
   \<and> getSQL asciiLower azureEnv (Inr ''users(id, name)'') (replyWith ''{bad}'') ''list users'' =
       ([ConsoleLog [Text ''Azure OpenAI Output: \<newline>'', Text ''{bad}''],
         ConsoleLog [Exn SyntaxError]], Inr defaultQueryData)
   \<and> sqlCompletion azureEnv (replyWith ''{"sql":5}'') ''users(id, name)'' ''list users'' =
       ([ConsoleLog [Text ''Azure OpenAI Output: \<newline>'', Text ''{"sql":5}'']], Inr ''{"sql":5}'')
   \<and> startsWith ''{"sql":5}'' ''{'' \<and> endsWith ''{"sql":5}'' ''}''
   \<and> JSON_parse ''{"sql":5}'' = Some (JObj [(units ''sql'', JNum 5)])
   \<and> prohibited asciiLower [(units ''sql'', JNum 5)] = Inl TypeError
   \<and> getSQL asciiLower azureEnv (Inr ''users(id, name)'') (replyWith ''{"sql":5}'') ''list users'' =
       ([ConsoleLog [Text ''Azure OpenAI Output: \<newline>'', Text ''{"sql":5}''],
         ConsoleLog [Exn TypeError]], Inr [(units ''sql'', JNum 5)])\<close>
proof -
  have c1: "sqlCompletion azureEnv (\<lambda>request. Inl TransportError) ''users(id, name)'' ''list users'' =
     ([ConsoleError [Text ''Error getting data:'', Exn TransportError]], Inl TransportError)"
    by code_simp
  have c2: "sqlCompletion azureEnv (replyWith ''{bad}'') ''users(id, name)'' ''list users'' =
       ([ConsoleLog [Text ''Azure OpenAI Output: \<newline>'', Text ''{bad}'']], Inr ''{bad}'')"
    by code_simp
  have b2: "startsWith ''{bad}'' ''{'' \<and> endsWith ''{bad}'' ''}'' \<and> JSON_parse ''{bad}'' = None"
    by code_simp
  have c3: \<open>sqlCompletion azureEnv (replyWith ''{"sql":5}'') ''users(id, name)'' ''list users'' =
       ([ConsoleLog [Text ''Azure OpenAI Output: \<newline>'', Text ''{"sql":5}'']], Inr ''{"sql":5}'')\<close>
    by code_simp
  have b3: \<open>startsWith ''{"sql":5}'' ''{'' \<and> endsWith ''{"sql":5}'' ''}''
      \<and> JSON_parse ''{"sql":5}'' = Some (JObj [(units ''sql'', JNum 5)])
      \<and> prohibited asciiLower [(units ''sql'', JNum 5)] = Inl TypeError\<close>
    by code_simp
  show ?thesis
    using c1 c2 b2 c3 b3
      getSQL_raises_only_on_read [where unicodeLower = asciiLower and env = azureEnv and dbSchema = "''users(id, name)''"
        and service = "\<lambda>request. Inl TransportError" and userPrompt = "''list users''"
        and out = "[ConsoleError [Text ''Error getting data:'', Exn TransportError]]"
        and e' = TransportError]
      getSQL_raises_only_on_read [where unicodeLower = asciiLower and env = azureEnv and dbSchema = "''users(id, name)''"
        and service = "replyWith ''{bad}''" and userPrompt = "''list users''"
        and out = "[ConsoleLog [Text ''Azure OpenAI Output: \<newline>'', Text ''{bad}'']]"
        and results = "''{bad}''"]
      getSQL_raises_only_on_read [where unicodeLower = asciiLower and env = azureEnv and dbSchema = "''users(id, name)''"
        and service = \<open>replyWith ''{"sql":5}''\<close> and userPrompt = "''list users''"
        and out = \<open>[ConsoleLog [Text ''Azure OpenAI Output: \<newline>'', Text ''{"sql":5}'']]\<close>
        and results = \<open>''{"sql":5}''\<close> and kvs = "[(units ''sql'', JNum 5)]" and e' = TypeError]
    by simp
qed

theorem getSQL_read_failure_counterexample:
  "getSQL asciiLower azureEnv (Inl FileError) (replyWith ''{}'') ''list users'' = ([], Inl FileError)"
  by code_simp


text \<open>
  C6, as amended. For every completion reply that does not both start with an opening
  brace and end with a closing brace, \<open>getSQL\<close> leaves \<open>sql\<close> and \<open>paramValues\<close> at their
  defaults and puts the whole reply in the \<open>error\<close> field, unless the lower-cased reply
  contains a prohibited keyword: then \<open>error\<close> is \<open>Prohibited query.\<close> The reply
  \<open>I cannot answer that\<close> yields the all-default result with that text as \<open>error\<close>.
\<close>

theorem getSQL_reply_not_in_braces:
  "(sqlCompletion env service dbSchema userPrompt = (out, Inr results)
    \<and> \<not> (startsWith results ''{'' \<and> endsWith results ''}'') \<longrightarrow>
      getSQL unicodeLower env (Inr dbSchema) service userPrompt =
        (out, Inr [(units ''sql'', JStr (units '''')), (units ''paramValues'', JArr []),
                   (units ''error'', JStr (units (if \<exists>keyword \<in> set prohibitedKeywords.
                                                  sublist keyword (toLowerCase results)
                                            then ''Prohibited query.'' else results)))]))
   \<and> snd (sqlCompletion azureEnv (replyWith ''I cannot answer that'') ''users(id, name)''
             ''list users'') = Inr ''I cannot answer that''
   \<and> snd (getSQL asciiLower azureEnv (Inr ''users(id, name)'') (replyWith ''I cannot answer that'')
             ''list users'') =
       Inr [(units ''sql'', JStr (units '''')), (units ''paramValues'', JArr []),
            (units ''error'', JStr (units ''I cannot answer that''))]"
proof (intro conjI impI)
  show "getSQL unicodeLower env (Inr dbSchema) service userPrompt =
        (out, Inr [(units ''sql'', JStr (units '''')), (units ''paramValues'', JArr []),
                   (units ''error'', JStr (units (if \<exists>keyword \<in> set prohibitedKeywords.
                                                  sublist keyword (toLowerCase results)
                                            then ''Prohibited query.'' else results)))])"
    if "sqlCompletion env service dbSchema userPrompt = (out, Inr results)
        \<and> \<not> (startsWith results ''{'' \<and> endsWith results ''}'')"
    using that getSQL_not_in_braces by blast
  show "snd (sqlCompletion azureEnv (replyWith ''I cannot answer that'') ''users(id, name)''
             ''list users'') = Inr ''I cannot answer that''"
    by code_simp
  show "snd (getSQL asciiLower azureEnv (Inr ''users(id, name)'') (replyWith ''I cannot answer that'')
             ''list users'') =
       Inr [(units ''sql'', JStr (units '''')), (units ''paramValues'', JArr []),
            (units ''error'', JStr (units ''I cannot answer that''))]"
    by code_simp
qed

theorem getSQL_reply_not_in_braces_witness:
  "sqlCompletion azureEnv (replyWith ''No table matches'') ''users(id, name)'' ''list users'' =
     ([ConsoleLog [Text ''Azure OpenAI Output: \<newline>'', Text ''No table matches'']],
      Inr ''No table matches'')
   \<and> \<not> (startsWith ''No table matches'' ''{'' \<and> endsWith ''No table matches'' ''}'')
   \<and> \<not> (\<exists>keyword \<in> set prohibitedKeywords. sublist keyword (toLowerCase ''No table matches''))
   \<and> getSQL asciiLower azureEnv (Inr ''users(id, name)'') (replyWith ''No table matches'') ''list users'' =
       ([ConsoleLog [Text ''Azure OpenAI Output: \<newline>'', Text ''No table matches'']],
        Inr [(units ''sql'', JStr (units '''')), (units ''paramValues'', JArr []),
             (units ''error'', JStr (units ''No table matches''))])"
proof -
  have c: "sqlCompletion azureEnv (replyWith ''No table matches'') ''users(id, name)''
             ''list users'' =
     ([ConsoleLog [Text ''Azure OpenAI Output: \<newline>'', Text ''No table matches'']],
      Inr ''No table matches'')"
    by code_simp
  have b: "\<not> (startsWith ''No table matches'' ''{'' \<and> endsWith ''No table matches'' ''}'')"
    by code_simp
  have k: "\<not> (\<exists>keyword \<in> set prohibitedKeywords.
                sublist keyword (toLowerCase ''No table matches''))"
    by code_simp
  show ?thesis
    using c b k
      getSQL_reply_not_in_braces [where unicodeLower = asciiLower and env = azureEnv and dbSchema = "''users(id, name)''"
        and service = "replyWith ''No table matches''" and userPrompt = "''list users''"
        and out = "[ConsoleLog [Text ''Azure OpenAI Output: \<newline>'', Text ''No table matches'']]"
        and results = "''No table matches''"]
    by simp
qed

theorem getSQL_reply_with_keyword_counterexample:
  "snd (sqlCompletion azureEnv (replyWith ''I cannot drop that'') ''users(id, name)''
          ''list users'') = Inr ''I cannot drop that''
   \<and> \<not> (startsWith ''I cannot drop that'' ''{'' \<and> endsWith ''I cannot drop that'' ''}'')
   \<and> snd (getSQL asciiLower azureEnv (Inr ''users(id, name)'') (replyWith ''I cannot drop that'')
           ''list users'') =
       Inr [(units ''sql'', JStr (units '''')), (units ''paramValues'', JArr []),
            (units ''error'', JStr (units ''Prohibited query.''))]"
  by code_simp

text \<open>
  C4, as amended. For every result of \<open>getSQL\<close>: if the \<open>error\<close> field is a non-empty
  string then the \<open>sql\<close> field is the empty string, unless the result is the parsed reply
  itself, returned as parsed because the reply was in braces, parsed as JSON and was not
  flagged by the safety filter.
\<close>

theorem getSQL_error_implies_empty_sql:
  assumes "snd (getSQL unicodeLower env (Inr dbSchema) service userPrompt) = Inr q"
    and "getProp q ''error'' = Some (JStr e)" and "e \<noteq> []"
  shows "getProp q ''sql'' = Some (JStr (units ''''))
         \<or> (\<exists>results. snd (sqlCompletion env service dbSchema userPrompt) = Inr results
               \<and> startsWith results ''{'' \<and> endsWith results ''}''
               \<and> JSON_parse results = Some (JObj q) \<and> prohibited unicodeLower q \<noteq> Inr True)"
proof -
  obtain out r where c: "sqlCompletion env service dbSchema userPrompt = (out, r)"
    by (meson surj_pair)
  show ?thesis
  proof (cases r)
    case (Inl e')
    then have "q = defaultQueryData"
      using getSQL_call_fails [of env service dbSchema userPrompt out e'] c assms(1) by simp
    then show ?thesis by (simp add: defaultQueryData_def getProp_def)
  next
    case (Inr results)
    show ?thesis
    proof (cases "startsWith results ''{'' \<and> endsWith results ''}''")
      case False
      then have "getProp q ''sql'' = Some (JStr (units ''''))"
        using getSQL_not_in_braces [of env service dbSchema userPrompt out results] c Inr assms(1)
        by (auto simp: getProp_def)
      then show ?thesis by simp
    next
      case True
      then consider "JSON_parse results = None"
        | kvs where "JSON_parse results = Some (JObj kvs)"
        using JSON_parse_object_cases [of results] by auto
      then show ?thesis
      proof cases
        case 1
        then have "q = defaultQueryData"
          using getSQL_parse_fails [of env service dbSchema userPrompt out results]
            c Inr True assms(1) by simp
        then show ?thesis by (simp add: defaultQueryData_def getProp_def)
      next
        case 2
        show ?thesis
        proof (cases "prohibited unicodeLower kvs = Inr True")
          case True
          then have "q = setProp (setProp kvs ''sql'' (JStr (units ''''))) ''error''
                           (JStr (units ''Prohibited query.''))"
            using getSQL_parsed [of env service dbSchema userPrompt out results kvs]
              c Inr \<open>startsWith results ''{'' \<and> endsWith results ''}''\<close> 2 assms(1)
            by simp
          then show ?thesis by (simp add: getProp_setProp)
        next
          case False
          then have "q = kvs"
            using getSQL_parsed [of env service dbSchema userPrompt out results kvs]
              c Inr \<open>startsWith results ''{'' \<and> endsWith results ''}''\<close> 2 assms(1)
            by (auto split: sum.splits bool.splits)
          then show ?thesis
            using c Inr \<open>startsWith results ''{'' \<and> endsWith results ''}''\<close> 2 False by auto
        qed
      qed
    qed
  qed
qed

theorem getSQL_error_implies_empty_sql_witness:
  "snd (getSQL asciiLower azureEnv (Inr ''users(id, name)'') (replyWith ''No table matches'') ''list users'')
     = Inr [(units ''sql'', JStr (units '''')), (units ''paramValues'', JArr []), (units ''error'', JStr (units ''No table matches''))]
   \<and> getProp [(units ''sql'', JStr (units '''')), (units ''paramValues'', JArr []), (units ''error'', JStr (units ''No table matches''))]
        ''error'' = Some (JStr (units ''No table matches''))
   \<and> units ''No table matches'' \<noteq> []
   \<and> getProp [(units ''sql'', JStr (units '''')), (units ''paramValues'', JArr []), (units ''error'', JStr (units ''No table matches''))]
        ''sql'' = Some (JStr (units ''''))
   \<and> \<not> startsWith ''No table matches'' ''{''"
proof -
  have r: "snd (getSQL asciiLower azureEnv (Inr ''users(id, name)'') (replyWith ''No table matches'')
                  ''list users'')
     = Inr [(units ''sql'', JStr (units '''')), (units ''paramValues'', JArr []), (units ''error'', JStr (units ''No table matches''))]"
    by code_simp
  have g: "getProp [(units ''sql'', JStr (units '''')), (units ''paramValues'', JArr []),
                     (units ''error'', JStr (units ''No table matches''))] ''error''
             = Some (JStr (units ''No table matches''))"
    by (simp add: getProp_def)
  have n: "units ''No table matches'' \<noteq> []" by simp
  have s: "\<not> startsWith ''No table matches'' ''{''" by code_simp
  have c: "snd (sqlCompletion azureEnv (replyWith ''No table matches'') ''users(id, name)''
                  ''list users'') = Inr ''No table matches''"
    by code_simp
  from getSQL_error_implies_empty_sql [OF r g n] c s
  have "getProp [(units ''sql'', JStr (units '''')), (units ''paramValues'', JArr []),
                 (units ''error'', JStr (units ''No table matches''))] ''sql'' = Some (JStr (units ''''))"
    by auto
  with r g n s show ?thesis by blast
qed

theorem getSQL_error_with_sql_counterexample:
  \<open>snd (sqlCompletion azureEnv (replyWith ''{"sql":"SELECT 1","error":"x"}'') ''users(id, name)''
          ''list users'') = Inr ''{"sql":"SELECT 1","error":"x"}''
   \<and> snd (getSQL asciiLower azureEnv (Inr ''users(id, name)'') (replyWith ''{"sql":"SELECT 1","error":"x"}'')
           ''list users'') =
       Inr [(units ''sql'', JStr (units ''SELECT 1'')), (units ''error'', JStr (units ''x''))]\<close>
  by code_simp


lemma isProhibitedQuery_not_string:
  assumes "truthy v" and "\<forall>s. v \<noteq> Some (JStr s)"
  shows "isProhibitedQuery unicodeLower v = Inl TypeError"
proof (cases v)
  case None
  then show ?thesis using assms(1) by simp
next
  case (Some j)
  then show ?thesis using assms by (cases j) (simp_all add: isProhibitedQuery_def)
qed

lemma prohibited_sql_not_string:
  assumes "truthy (getProp kvs ''sql'')" and "\<forall>s. getProp kvs ''sql'' \<noteq> Some (JStr s)"
  shows "prohibited unicodeLower kvs = Inl TypeError"
  using isProhibitedQuery_not_string [OF assms] by (simp add: prohibited_def)

text \<open>
  C8, as amended. For every completion reply in braces that parses as JSON: if the
  safety filter flags the \<open>sql\<close> field of the parsed reply, or returns false on the \<open>sql\<close>
  field and flags the \<open>error\<close> field, then \<open>getSQL\<close> returns the parsed reply with \<open>sql\<close>
  forced to the empty string and \<open>error\<close> forced to \<open>Prohibited query.\<close>, every other
  property as parsed. When the \<open>sql\<close> field is a truthy value that is not a string, the
  filter raises on it, the \<open>error\<close> field is never examined, the exception is logged and
  the parsed reply is returned unchanged. The reply
  \<open>{"sql":"DROP TABLE users","paramValues":[]}\<close> yields
  \<open>{sql:'', paramValues:[], error:'Prohibited query.'}\<close>.
\<close>

theorem getSQL_prohibited_reply:
  \<open>(sqlCompletion env service dbSchema userPrompt = (out, Inr results)
    \<and> startsWith results ''{'' \<and> endsWith results ''}'' \<and> JSON_parse results = Some (JObj kvs)
    \<and> (isProhibitedQuery unicodeLower (getProp kvs ''sql'') = Inr True
       \<or> (isProhibitedQuery unicodeLower (getProp kvs ''sql'') = Inr False
          \<and> isProhibitedQuery unicodeLower (getProp kvs ''error'') = Inr True)) \<longrightarrow>
      (\<exists>q. getSQL unicodeLower env (Inr dbSchema) service userPrompt = (out, Inr q)
         \<and> q = setProp (setProp kvs ''sql'' (JStr (units ''''))) ''error''
                 (JStr (units ''Prohibited query.''))
         \<and> getProp q ''sql'' = Some (JStr (units ''''))
         \<and> getProp q ''error'' = Some (JStr (units ''Prohibited query.''))
         \<and> (\<forall>k. k \<noteq> ''sql'' \<and> k \<noteq> ''error'' \<longrightarrow> getProp q k = getProp kvs k)
         \<and> (\<forall>n. n \<noteq> units ''sql'' \<and> n \<noteq> units ''error'' \<longrightarrow> map_of q n = map_of kvs n)))
   \<and> (sqlCompletion env service dbSchema userPrompt = (out, Inr results)
       \<and> startsWith results ''{'' \<and> endsWith results ''}'' \<and> JSON_parse results = Some (JObj kvs)
       \<and> truthy (getProp kvs ''sql'') \<and> (\<forall>s. getProp kvs ''sql'' \<noteq> Some (JStr s)) \<longrightarrow>
         getSQL unicodeLower env (Inr dbSchema) service userPrompt =
           (out @ [ConsoleLog [Exn TypeError]], Inr kvs))
   \<and> snd (sqlCompletion azureEnv (replyWith ''{"sql":"DROP TABLE users","paramValues":[]}'')
             ''users(id, name)'' ''list users'') = Inr ''{"sql":"DROP TABLE users","paramValues":[]}''
   \<and> snd (getSQL asciiLower azureEnv (Inr ''users(id, name)'')
             (replyWith ''{"sql":"DROP TABLE users","paramValues":[]}'') ''list users'') =
       Inr [(units ''sql'', JStr (units '''')), (units ''paramValues'', JArr []),
            (units ''error'', JStr (units ''Prohibited query.''))]\<close>
proof (intro conjI impI)
  assume a: "sqlCompletion env service dbSchema userPrompt = (out, Inr results)
    \<and> startsWith results ''{'' \<and> endsWith results ''}'' \<and> JSON_parse results = Some (JObj kvs)
    \<and> (isProhibitedQuery unicodeLower (getProp kvs ''sql'') = Inr True
       \<or> (isProhibitedQuery unicodeLower (getProp kvs ''sql'') = Inr False
          \<and> isProhibitedQuery unicodeLower (getProp kvs ''error'') = Inr True))"
  let ?forced = "setProp (setProp kvs ''sql'' (JStr (units ''''))) ''error''
                   (JStr (units ''Prohibited query.''))"
  from a have "prohibited unicodeLower kvs = Inr True"
    by (simp add: prohibited_True_iff)
  then have g: "getSQL unicodeLower env (Inr dbSchema) service userPrompt = (out, Inr ?forced)"
    using a getSQL_parsed [of env service dbSchema userPrompt out results kvs unicodeLower]
    by simp
  have p1: "getProp ?forced ''sql'' = Some (JStr (units ''''))"
    by (simp add: getProp_setProp)
  have p2: "getProp ?forced ''error'' = Some (JStr (units ''Prohibited query.''))"
    by (simp add: getProp_setProp)
  have p3: "\<forall>k. k \<noteq> ''sql'' \<and> k \<noteq> ''error'' \<longrightarrow> getProp ?forced k = getProp kvs k"
    by (simp add: getProp_setProp)
  have p4: "\<forall>n. n \<noteq> units ''sql'' \<and> n \<noteq> units ''error'' \<longrightarrow> map_of ?forced n = map_of kvs n"
    by (simp add: map_of_setProp)
  show "\<exists>q. getSQL unicodeLower env (Inr dbSchema) service userPrompt = (out, Inr q)
         \<and> q = ?forced
         \<and> getProp q ''sql'' = Some (JStr (units ''''))
         \<and> getProp q ''error'' = Some (JStr (units ''Prohibited query.''))
         \<and> (\<forall>k. k \<noteq> ''sql'' \<and> k \<noteq> ''error'' \<longrightarrow> getProp q k = getProp kvs k)
         \<and> (\<forall>n. n \<noteq> units ''sql'' \<and> n \<noteq> units ''error'' \<longrightarrow> map_of q n = map_of kvs n)"
    using g p1 p2 p3 p4 by blast
next
  assume a: "sqlCompletion env service dbSchema userPrompt = (out, Inr results)
       \<and> startsWith results ''{'' \<and> endsWith results ''}'' \<and> JSON_parse results = Some (JObj kvs)
       \<and> truthy (getProp kvs ''sql'') \<and> (\<forall>s. getProp kvs ''sql'' \<noteq> Some (JStr s))"
  then have "prohibited unicodeLower kvs = Inl TypeError"
    using prohibited_sql_not_string [of kvs unicodeLower] by blast
  then show "getSQL unicodeLower env (Inr dbSchema) service userPrompt =
           (out @ [ConsoleLog [Exn TypeError]], Inr kvs)"
    using a getSQL_parsed [of env service dbSchema userPrompt out results kvs unicodeLower]
    by simp
next
  show \<open>snd (sqlCompletion azureEnv (replyWith ''{"sql":"DROP TABLE users","paramValues":[]}'')
             ''users(id, name)'' ''list users'') = Inr ''{"sql":"DROP TABLE users","paramValues":[]}''\<close>
    by code_simp
next
  show \<open>snd (getSQL asciiLower azureEnv (Inr ''users(id, name)'')
             (replyWith ''{"sql":"DROP TABLE users","paramValues":[]}'') ''list users'') =
       Inr [(units ''sql'', JStr (units '''')), (units ''paramValues'', JArr []),
            (units ''error'', JStr (units ''Prohibited query.''))]\<close>
    by code_simp
qed

theorem getSQL_prohibited_reply_witness:
  \<open>sqlCompletion azureEnv (replyWith ''{"sql":"SELECT 1","error":"please update"}'')
      ''users(id, name)'' ''list users'' =
     ([ConsoleLog [Text ''Azure OpenAI Output: \<newline>'',
                   Text ''{"sql":"SELECT 1","error":"please update"}'']],
      Inr ''{"sql":"SELECT 1","error":"please update"}'')
   \<and> startsWith ''{"sql":"SELECT 1","error":"please update"}'' ''{''
   \<and> endsWith ''{"sql":"SELECT 1","error":"please update"}'' ''}''
   \<and> JSON_parse ''{"sql":"SELECT 1","error":"please update"}'' =
       Some (JObj [(units ''sql'', JStr (units ''SELECT 1'')),
                   (units ''error'', JStr (units ''please update''))])
   \<and> isProhibitedQuery asciiLower
         (getProp [(units ''sql'', JStr (units ''SELECT 1'')),
                   (units ''error'', JStr (units ''please update''))] ''sql'') = Inr False
   \<and> isProhibitedQuery asciiLower
         (getProp [(units ''sql'', JStr (units ''SELECT 1'')),
                   (units ''error'', JStr (units ''please update''))] ''error'') = Inr True
   \<and> getSQL asciiLower azureEnv (Inr ''users(id, name)'')
         (replyWith ''{"sql":"SELECT 1","error":"please update"}'') ''list users'' =
       ([ConsoleLog [Text ''Azure OpenAI Output: \<newline>'',
                     Text ''{"sql":"SELECT 1","error":"please update"}'']],
        Inr [(units ''sql'', JStr (units '''')),
             (units ''error'', JStr (units ''Prohibited query.''))])
   \<and> sqlCompletion azureEnv (replyWith sqlReplyWithEscape) ''users(id, name)'' ''list users'' =
       ([ConsoleLog [Text ''Azure OpenAI Output: \<newline>'', Text sqlReplyWithEscape]],
        Inr sqlReplyWithEscape)
   \<and> startsWith sqlReplyWithEscape ''{'' \<and> endsWith sqlReplyWithEscape ''}''
   \<and> JSON_parse sqlReplyWithEscape =
       Some (JObj [(units ''sql'', JStr (units ''DROP TABLE users -- '' @ [0x2019]))])
   \<and> isProhibitedQuery asciiLower
         (getProp [(units ''sql'', JStr (units ''DROP TABLE users -- '' @ [0x2019]))] ''sql'') =
       Inr True
   \<and> getSQL asciiLower azureEnv (Inr ''users(id, name)'') (replyWith sqlReplyWithEscape)
         ''list users'' =
       ([ConsoleLog [Text ''Azure OpenAI Output: \<newline>'', Text sqlReplyWithEscape]],
        Inr [(units ''sql'', JStr (units '''')),
             (units ''error'', JStr (units ''Prohibited query.''))])
   \<and> sqlCompletion azureEnv (replyWith ''{"sql":5,"error":"drop"}'') ''users(id, name)''
         ''list users'' =
       ([ConsoleLog [Text ''Azure OpenAI Output: \<newline>'', Text ''{"sql":5,"error":"drop"}'']],
        Inr ''{"sql":5,"error":"drop"}'')
   \<and> startsWith ''{"sql":5,"error":"drop"}'' ''{'' \<and> endsWith ''{"sql":5,"error":"drop"}'' ''}''
   \<and> JSON_parse ''{"sql":5,"error":"drop"}'' =
       Some (JObj [(units ''sql'', JNum 5), (units ''error'', JStr (units ''drop''))])
   \<and> truthy (getProp [(units ''sql'', JNum 5), (units ''error'', JStr (units ''drop''))] ''sql'')
   \<and> (\<forall>s. getProp [(units ''sql'', JNum 5), (units ''error'', JStr (units ''drop''))] ''sql''
            \<noteq> Some (JStr s))
   \<and> getSQL asciiLower azureEnv (Inr ''users(id, name)'') (replyWith ''{"sql":5,"error":"drop"}'')
         ''list users'' =
       ([ConsoleLog [Text ''Azure OpenAI Output: \<newline>'', Text ''{"sql":5,"error":"drop"}''],
         ConsoleLog [Exn TypeError]],
        Inr [(units ''sql'', JNum 5), (units ''error'', JStr (units ''drop''))])\<close>
proof -
  have c: \<open>sqlCompletion azureEnv (replyWith ''{"sql":"SELECT 1","error":"please update"}'')
      ''users(id, name)'' ''list users'' =
     ([ConsoleLog [Text ''Azure OpenAI Output: \<newline>'',
                   Text ''{"sql":"SELECT 1","error":"please update"}'']],
      Inr ''{"sql":"SELECT 1","error":"please update"}'')\<close>
    by code_simp
  have b: \<open>startsWith ''{"sql":"SELECT 1","error":"please update"}'' ''{''
   \<and> endsWith ''{"sql":"SELECT 1","error":"please update"}'' ''}''
   \<and> JSON_parse ''{"sql":"SELECT 1","error":"please update"}'' =
       Some (JObj [(units ''sql'', JStr (units ''SELECT 1'')),
                   (units ''error'', JStr (units ''please update''))])\<close>
    by code_simp
  have f: "isProhibitedQuery asciiLower
             (getProp [(units ''sql'', JStr (units ''SELECT 1'')),
                       (units ''error'', JStr (units ''please update''))] ''sql'') = Inr False
   \<and> isProhibitedQuery asciiLower
         (getProp [(units ''sql'', JStr (units ''SELECT 1'')),
                   (units ''error'', JStr (units ''please update''))] ''error'') = Inr True"
    by code_simp
  have s: "setProp (setProp [(units ''sql'', JStr (units ''SELECT 1'')),
                             (units ''error'', JStr (units ''please update''))]
                      ''sql'' (JStr (units ''''))) ''error'' (JStr (units ''Prohibited query.''))
           = [(units ''sql'', JStr (units '''')),
              (units ''error'', JStr (units ''Prohibited query.''))]"
    by (simp add: setProp_def)
  have c': \<open>sqlCompletion azureEnv (replyWith sqlReplyWithEscape) ''users(id, name)''
              ''list users'' =
       ([ConsoleLog [Text ''Azure OpenAI Output: \<newline>'', Text sqlReplyWithEscape]],
        Inr sqlReplyWithEscape)\<close>
    by code_simp
  have b': \<open>startsWith sqlReplyWithEscape ''{'' \<and> endsWith sqlReplyWithEscape ''}''
   \<and> JSON_parse sqlReplyWithEscape =
       Some (JObj [(units ''sql'', JStr (units ''DROP TABLE users -- '' @ [0x2019]))])\<close>
    by code_simp
  have f': "isProhibitedQuery asciiLower
         (getProp [(units ''sql'', JStr (units ''DROP TABLE users -- '' @ [0x2019]))] ''sql'') =
       Inr True"
    by code_simp
  have s': "setProp (setProp [(units ''sql'', JStr (units ''DROP TABLE users -- '' @ [0x2019]))]
                      ''sql'' (JStr (units ''''))) ''error'' (JStr (units ''Prohibited query.''))
           = [(units ''sql'', JStr (units '''')),
              (units ''error'', JStr (units ''Prohibited query.''))]"
    by (simp add: setProp_def)
  have c'': \<open>sqlCompletion azureEnv (replyWith ''{"sql":5,"error":"drop"}'') ''users(id, name)''
         ''list users'' =
       ([ConsoleLog [Text ''Azure OpenAI Output: \<newline>'', Text ''{"sql":5,"error":"drop"}'']],
        Inr ''{"sql":5,"error":"drop"}'')\<close>
    by code_simp
  have b'': \<open>startsWith ''{"sql":5,"error":"drop"}'' ''{'' \<and> endsWith ''{"sql":5,"error":"drop"}'' ''}''
   \<and> JSON_parse ''{"sql":5,"error":"drop"}'' =
       Some (JObj [(units ''sql'', JNum 5), (units ''error'', JStr (units ''drop''))])\<close>
    by code_simp
  have t'': "truthy (getProp [(units ''sql'', JNum 5), (units ''error'', JStr (units ''drop''))] ''sql'')
   \<and> (\<forall>s. getProp [(units ''sql'', JNum 5), (units ''error'', JStr (units ''drop''))] ''sql''
            \<noteq> Some (JStr s))"
    by (simp add: getProp_def)
  note w1 = getSQL_prohibited_reply [where unicodeLower = asciiLower and env = azureEnv
        and dbSchema = "''users(id, name)''"
        and service = \<open>replyWith ''{"sql":"SELECT 1","error":"please update"}''\<close>
        and userPrompt = "''list users''"
        and out = \<open>[ConsoleLog [Text ''Azure OpenAI Output: \<newline>'',
                                 Text ''{"sql":"SELECT 1","error":"please update"}'']]\<close>
        and results = \<open>''{"sql":"SELECT 1","error":"please update"}''\<close>
        and kvs = "[(units ''sql'', JStr (units ''SELECT 1'')),
                    (units ''error'', JStr (units ''please update''))]"]
  note w2 = getSQL_prohibited_reply [where unicodeLower = asciiLower and env = azureEnv
        and dbSchema = "''users(id, name)''"
        and service = \<open>replyWith sqlReplyWithEscape\<close>
        and userPrompt = "''list users''"
        and out = \<open>[ConsoleLog [Text ''Azure OpenAI Output: \<newline>'',
                                 Text sqlReplyWithEscape]]\<close>
        and results = sqlReplyWithEscape
        and kvs = "[(units ''sql'', JStr (units ''DROP TABLE users -- '' @ [0x2019]))]"]
  note w3 = getSQL_prohibited_reply [where unicodeLower = asciiLower and env = azureEnv
        and dbSchema = "''users(id, name)''"
        and service = \<open>replyWith ''{"sql":5,"error":"drop"}''\<close>
        and userPrompt = "''list users''"
        and out = \<open>[ConsoleLog [Text ''Azure OpenAI Output: \<newline>'',
                                 Text ''{"sql":5,"error":"drop"}'']]\<close>
        and results = \<open>''{"sql":5,"error":"drop"}''\<close>
        and kvs = "[(units ''sql'', JNum 5), (units ''error'', JStr (units ''drop''))]"]
  have r1: \<open>getSQL asciiLower azureEnv (Inr ''users(id, name)'')
         (replyWith ''{"sql":"SELECT 1","error":"please update"}'') ''list users'' =
       ([ConsoleLog [Text ''Azure OpenAI Output: \<newline>'',
                     Text ''{"sql":"SELECT 1","error":"please update"}'']],
        Inr [(units ''sql'', JStr (units '''')),
             (units ''error'', JStr (units ''Prohibited query.''))])\<close>
    using w1 c b f s by auto
  have r2: \<open>getSQL asciiLower azureEnv (Inr ''users(id, name)'') (replyWith sqlReplyWithEscape)
         ''list users'' =
       ([ConsoleLog [Text ''Azure OpenAI Output: \<newline>'', Text sqlReplyWithEscape]],
        Inr [(units ''sql'', JStr (units '''')),
             (units ''error'', JStr (units ''Prohibited query.''))])\<close>
    using w2 c' b' f' s' by auto
  have r3: \<open>getSQL asciiLower azureEnv (Inr ''users(id, name)'') (replyWith ''{"sql":5,"error":"drop"}'')
         ''list users'' =
       ([ConsoleLog [Text ''Azure OpenAI Output: \<newline>'', Text ''{"sql":5,"error":"drop"}''],
         ConsoleLog [Exn TypeError]],
        Inr [(units ''sql'', JNum 5), (units ''error'', JStr (units ''drop''))])\<close>
    using w3 c'' b'' t'' by auto
  show ?thesis
    using c b f r1 c' b' f' r2 c'' b'' t'' r3 by blast
qed

theorem getSQL_filter_raises_counterexample:
  \<open>snd (sqlCompletion azureEnv (replyWith ''{"sql":5,"error":"drop"}'') ''users(id, name)''
          ''list users'') = Inr ''{"sql":5,"error":"drop"}''
   \<and> JSON_parse ''{"sql":5,"error":"drop"}'' =
       Some (JObj [(units ''sql'', JNum 5), (units ''error'', JStr (units ''drop''))])
   \<and> isProhibitedQuery asciiLower
         (getProp [(units ''sql'', JNum 5), (units ''error'', JStr (units ''drop''))] ''error'') =
       Inr True
   \<and> snd (getSQL asciiLower azureEnv (Inr ''users(id, name)'') (replyWith ''{"sql":5,"error":"drop"}'')
           ''list users'') =
       Inr [(units ''sql'', JNum 5), (units ''error'', JStr (units ''drop''))]\<close>
  by code_simp

text \<open>
  C10, as amended. For every completion reply in braces that parses to an object without
  a \<open>paramValues\<close> property, \<open>getSQL\<close> returns a result without a \<open>paramValues\<close> property,
  not the default empty sequence. Unless the safety filter flags the reply the result is
  the parsed object as a whole, so it has no \<open>error\<close> property when the reply supplies
  none; when the filter flags the reply, \<open>sql\<close> is the empty string and \<open>error\<close> is
  \<open>Prohibited query.\<close> The reply \<open>{"sql":"SELECT 1"}\<close> yields the object with the one
  property \<open>sql\<close>.
\<close>

theorem getSQL_reply_without_paramValues:
  \<open>(sqlCompletion env service dbSchema userPrompt = (out, Inr results)
    \<and> startsWith results ''{'' \<and> endsWith results ''}'' \<and> JSON_parse results = Some (JObj kvs)
    \<and> getProp kvs ''paramValues'' = None \<longrightarrow>
      (\<exists>q. snd (getSQL unicodeLower env (Inr dbSchema) service userPrompt) = Inr q
         \<and> getProp q ''paramValues'' = None
         \<and> (prohibited unicodeLower kvs \<noteq> Inr True \<longrightarrow> q = kvs)
         \<and> (prohibited unicodeLower kvs \<noteq> Inr True \<and> getProp kvs ''error'' = None \<longrightarrow>
              getProp q ''error'' = None)
         \<and> (prohibited unicodeLower kvs = Inr True \<longrightarrow>
              getProp q ''sql'' = Some (JStr (units ''''))
              \<and> getProp q ''error'' = Some (JStr (units ''Prohibited query.'')))))
   \<and> snd (sqlCompletion azureEnv (replyWith ''{"sql":"SELECT 1"}'') ''users(id, name)''
             ''list users'') = Inr ''{"sql":"SELECT 1"}''
   \<and> snd (getSQL asciiLower azureEnv (Inr ''users(id, name)'') (replyWith ''{"sql":"SELECT 1"}'')
             ''list users'') = Inr [(units ''sql'', JStr (units ''SELECT 1''))]\<close>
proof (intro conjI impI)
  assume a: "sqlCompletion env service dbSchema userPrompt = (out, Inr results)
    \<and> startsWith results ''{'' \<and> endsWith results ''}'' \<and> JSON_parse results = Some (JObj kvs)
    \<and> getProp kvs ''paramValues'' = None"
  let ?forced = "setProp (setProp kvs ''sql'' (JStr (units ''''))) ''error''
                   (JStr (units ''Prohibited query.''))"
  have g: "getSQL unicodeLower env (Inr dbSchema) service userPrompt =
           (case prohibited unicodeLower kvs of
              Inl e \<Rightarrow> (out @ [ConsoleLog [Exn e]], Inr kvs)
            | Inr True \<Rightarrow> (out, Inr ?forced)
            | Inr False \<Rightarrow> (out, Inr kvs))"
    using a getSQL_parsed [of env service dbSchema userPrompt out results kvs unicodeLower]
    by simp
  show "\<exists>q. snd (getSQL unicodeLower env (Inr dbSchema) service userPrompt) = Inr q
         \<and> getProp q ''paramValues'' = None
         \<and> (prohibited unicodeLower kvs \<noteq> Inr True \<longrightarrow> q = kvs)
         \<and> (prohibited unicodeLower kvs \<noteq> Inr True \<and> getProp kvs ''error'' = None \<longrightarrow>
              getProp q ''error'' = None)
         \<and> (prohibited unicodeLower kvs = Inr True \<longrightarrow>
              getProp q ''sql'' = Some (JStr (units ''''))
              \<and> getProp q ''error'' = Some (JStr (units ''Prohibited query.'')))"
  proof (cases "prohibited unicodeLower kvs = Inr True")
    case True
    then have "snd (getSQL unicodeLower env (Inr dbSchema) service userPrompt) = Inr ?forced"
      using g by simp
    moreover have "getProp ?forced ''paramValues'' = None"
      using a by (simp add: getProp_setProp)
    moreover have "getProp ?forced ''sql'' = Some (JStr (units ''''))"
      by (simp add: getProp_setProp)
    moreover have "getProp ?forced ''error'' = Some (JStr (units ''Prohibited query.''))"
      by (simp add: getProp_setProp)
    ultimately show ?thesis using True by simp
  next
    case False
    then have "snd (getSQL unicodeLower env (Inr dbSchema) service userPrompt) = Inr kvs"
      using g by (auto split: sum.splits bool.splits)
    then show ?thesis using a False by simp
  qed
next
  show \<open>snd (sqlCompletion azureEnv (replyWith ''{"sql":"SELECT 1"}'') ''users(id, name)''
             ''list users'') = Inr ''{"sql":"SELECT 1"}''\<close>
    by code_simp
next
  show \<open>snd (getSQL asciiLower azureEnv (Inr ''users(id, name)'') (replyWith ''{"sql":"SELECT 1"}'')
             ''list users'') = Inr [(units ''sql'', JStr (units ''SELECT 1''))]\<close>
    by code_simp
qed

theorem getSQL_reply_without_paramValues_witness:
  \<open>sqlCompletion azureEnv (replyWith ''{"sql":"SELECT 2"}'') ''users(id, name)'' ''list users'' =
     ([ConsoleLog [Text ''Azure OpenAI Output: \<newline>'', Text ''{"sql":"SELECT 2"}'']],
      Inr ''{"sql":"SELECT 2"}'')
   \<and> startsWith ''{"sql":"SELECT 2"}'' ''{'' \<and> endsWith ''{"sql":"SELECT 2"}'' ''}''
   \<and> JSON_parse ''{"sql":"SELECT 2"}'' = Some (JObj [(units ''sql'', JStr (units ''SELECT 2''))])
   \<and> getProp [(units ''sql'', JStr (units ''SELECT 2''))] ''paramValues'' = None
   \<and> prohibited asciiLower [(units ''sql'', JStr (units ''SELECT 2''))] \<noteq> Inr True
   \<and> getProp [(units ''sql'', JStr (units ''SELECT 2''))] ''error'' = None
   \<and> snd (getSQL asciiLower azureEnv (Inr ''users(id, name)'') (replyWith ''{"sql":"SELECT 2"}'')
            ''list users'') = Inr [(units ''sql'', JStr (units ''SELECT 2''))]\<close>
proof -
  have c: \<open>sqlCompletion azureEnv (replyWith ''{"sql":"SELECT 2"}'') ''users(id, name)''
             ''list users'' =
     ([ConsoleLog [Text ''Azure OpenAI Output: \<newline>'', Text ''{"sql":"SELECT 2"}'']],
      Inr ''{"sql":"SELECT 2"}'')\<close>
    by code_simp
  have b: \<open>startsWith ''{"sql":"SELECT 2"}'' ''{'' \<and> endsWith ''{"sql":"SELECT 2"}'' ''}''
   \<and> JSON_parse ''{"sql":"SELECT 2"}'' = Some (JObj [(units ''sql'', JStr (units ''SELECT 2''))])\<close>
    by code_simp
  have p: "getProp [(units ''sql'', JStr (units ''SELECT 2''))] ''paramValues'' = None
           \<and> getProp [(units ''sql'', JStr (units ''SELECT 2''))] ''error'' = None"
    by (simp add: getProp_def)
  have f: "prohibited asciiLower [(units ''sql'', JStr (units ''SELECT 2''))] = Inr False"
    by code_simp
  then have f': "prohibited asciiLower [(units ''sql'', JStr (units ''SELECT 2''))] \<noteq> Inr True" by simp
  show ?thesis
    using c b p f'
      getSQL_reply_without_paramValues [where unicodeLower = asciiLower and env = azureEnv and dbSchema = "''users(id, name)''"
        and service = \<open>replyWith ''{"sql":"SELECT 2"}''\<close> and userPrompt = "''list users''"
        and out = \<open>[ConsoleLog [Text ''Azure OpenAI Output: \<newline>'',
                                 Text ''{"sql":"SELECT 2"}'']]\<close>
        and results = \<open>''{"sql":"SELECT 2"}''\<close> and kvs = "[(units ''sql'', JStr (units ''SELECT 2''))]"]
    by auto
qed

theorem getSQL_flagged_reply_gets_error_counterexample:
  \<open>snd (sqlCompletion azureEnv (replyWith ''{"sql":"DROP TABLE x"}'') ''users(id, name)''
          ''list users'') = Inr ''{"sql":"DROP TABLE x"}''
   \<and> JSON_parse ''{"sql":"DROP TABLE x"}'' = Some (JObj [(units ''sql'', JStr (units ''DROP TABLE x''))])
   \<and> snd (getSQL asciiLower azureEnv (Inr ''users(id, name)'') (replyWith ''{"sql":"DROP TABLE x"}'')
           ''list users'') =
       Inr [(units ''sql'', JStr (units '''')), (units ''error'', JStr (units ''Prohibited query.''))]\<close>
  by code_simp

section \<open>The message flow: properties\<close>

lemma email_call_fails:
  assumes "emailCompletion env service prompt contactName = (out, Inl e)"
  shows "snd (completeEmailSMSMessages env service prompt company contactName) =
           Inr defaultEmailSmsResponse"
  using assms by (simp add: completeEmailSMSMessages_def)

lemma email_not_in_braces:
  assumes "emailCompletion env service prompt contactName = (out, Inr results)"
    and "\<not> (startsWith results ''{'' \<and> endsWith results ''}'')"
  shows "snd (completeEmailSMSMessages env service prompt company contactName) =
           Inr [(units ''status'', JBool False), (units ''email'', JStr (units '''')), (units ''sms'', JStr (units '''')),
                (units ''error'', JStr (units results))]"
  using assms
  by (auto simp: completeEmailSMSMessages_def defaultEmailSmsResponse_def setProp_def)

lemma email_parse_fails:
  assumes "emailCompletion env service prompt contactName = (out, Inr results)"
    and "startsWith results ''{''" and "endsWith results ''}''"
    and "JSON_parse results = None"
  shows "snd (completeEmailSMSMessages env service prompt company contactName) =
           Inr defaultEmailSmsResponse"
proof -
  have "results \<noteq> []" using assms(2) by (auto simp: startsWith_def)
  moreover have "JSON_parse_object results = Inl SyntaxError"
    using assms(4) by (simp add: JSON_parse_object_def)
  ultimately show ?thesis using assms by (simp add: completeEmailSMSMessages_def)
qed

lemma email_parsed:
  assumes "emailCompletion env service prompt contactName = (out, Inr results)"
    and "startsWith results ''{''" and "endsWith results ''}''"
    and "JSON_parse results = Some (JObj kvs)"
  shows "snd (completeEmailSMSMessages env service prompt company contactName) =
           Inr (setProp (spread [(units ''content'', JObj defaultEmailSmsResponse)] kvs)
                  ''status'' (JBool True))"
proof -
  have "results \<noteq> []" using assms(2) by (auto simp: startsWith_def)
  moreover have "JSON_parse_object results = Inr kvs"
    using assms(4) by (simp add: JSON_parse_object_def)
  ultimately show ?thesis using assms by (simp add: completeEmailSMSMessages_def)
qed

lemma getProp_spread:
  "getProp (spread a b) k =
     (case map_of (rev b) (units k) of Some v \<Rightarrow> Some v | None \<Rightarrow> getProp a k)"
proof (induction b arbitrary: a)
  case Nil
  then show ?case by (simp add: spread_def)
next
  case (Cons x b)
  obtain k' v' where x: "x = (k', v')" by (cases x)
  have "spread a (x # b) = spread (AList.update k' v' a) b"
    by (simp add: spread_def x)
  moreover have "getProp (AList.update k' v' a) k = (if units k = k' then Some v' else getProp a k)"
    by (auto simp: getProp_def update_conv')
  ultimately show ?case
    using Cons [of "AList.update k' v' a"]
    by (auto simp: x map_add_def split: option.splits)
qed

lemma email_defaults_not_merged:
  assumes "emailCompletion env service prompt contactName = (out, Inr results)"
    and "startsWith results ''{''" and "endsWith results ''}''"
    and "JSON_parse results = Some (JObj kvs)"
  shows "\<exists>q. snd (completeEmailSMSMessages env service prompt company contactName) = Inr q
           \<and> getProp q ''status'' = Some (JBool True)
           \<and> (units ''content'' \<notin> fst ` set kvs \<longrightarrow>
                getProp q ''content'' = Some (JObj defaultEmailSmsResponse))
           \<and> (\<forall>k. units k \<notin> fst ` set kvs \<and> k \<noteq> ''status'' \<and> k \<noteq> ''content'' \<longrightarrow>
                getProp q k = None)"
proof -
  have absent: "map_of (rev kvs) n = None" if "n \<notin> fst ` set kvs" for n
    using that by (simp add: map_of_eq_None_iff)
  have "getProp [(units ''content'', JObj defaultEmailSmsResponse)] k =
          (if k = ''content'' then Some (JObj defaultEmailSmsResponse) else None)" for k
    by (simp add: getProp_def)
  then show ?thesis
    using email_parsed [OF assms, of company] absent
    by (simp add: getProp_setProp getProp_spread)
qed

text \<open>
  C2. On the reply \<open>{"emailSubject":"Hi","emailBody":"Hello","sms":"Hi"}\<close> the result has
  \<open>status\<close> true and the three message fields of the reply. The default shape is not merged
  into it: the defaults sit under an additional property \<open>content\<close>, and the result has
  no \<open>email\<close> and no \<open>error\<close> property of its own.
\<close>

theorem completeEmailSMSMessages_nests_defaults:
  \<open>snd (emailCompletion azureEnv
          (replyWith ''{"emailSubject":"Hi","emailBody":"Hello","sms":"Hi"}'')
          ''Order shipped'' ''Ann'') = Inr ''{"emailSubject":"Hi","emailBody":"Hello","sms":"Hi"}''
   \<and> snd (completeEmailSMSMessages azureEnv
            (replyWith ''{"emailSubject":"Hi","emailBody":"Hello","sms":"Hi"}'')
            ''Order shipped'' ''Contoso'' ''Ann'') =
       Inr [(units ''content'', JObj [(units ''status'', JBool False), (units ''email'', JStr (units '''')),
                                (units ''sms'', JStr (units '''')), (units ''error'', JStr (units ''''))]),
            (units ''emailSubject'', JStr (units ''Hi'')), (units ''emailBody'', JStr (units ''Hello'')),
            (units ''sms'', JStr (units ''Hi'')), (units ''status'', JBool True)]\<close>
  by code_simp

text \<open>
  C5, as amended. In every result of \<open>completeEmailSMSMessages\<close>, \<open>status\<close> is true exactly
  when the reply starts with an opening brace, ends with a closing brace and parses as
  JSON. When the reply is not in braces, \<open>status\<close> is false and \<open>error\<close> holds the raw
  reply. When the completion call raises, or the reply is in braces and does not parse,
  the default result is returned: \<open>status\<close> is false and \<open>error\<close> is the empty string.
\<close>

theorem completeEmailSMSMessages_status:
  assumes "emailCompletion env service prompt contactName = (out, r)"
  shows "\<exists>q. snd (completeEmailSMSMessages env service prompt company contactName) = Inr q
           \<and> (getProp q ''status'' = Some (JBool True) \<longleftrightarrow>
                (\<exists>results. r = Inr results \<and> startsWith results ''{'' \<and> endsWith results ''}''
                   \<and> JSON_parse results \<noteq> None))
           \<and> (\<forall>results. r = Inr results
                  \<and> \<not> (startsWith results ''{'' \<and> endsWith results ''}'') \<longrightarrow>
                  getProp q ''status'' = Some (JBool False)
                  \<and> getProp q ''error'' = Some (JStr (units results)))
           \<and> ((\<exists>e. r = Inl e)
                \<or> (\<exists>results. r = Inr results \<and> startsWith results ''{''
                      \<and> endsWith results ''}'' \<and> JSON_parse results = None) \<longrightarrow>
                q = defaultEmailSmsResponse
                \<and> getProp q ''status'' = Some (JBool False)
                \<and> getProp q ''error'' = Some (JStr (units '''')))"
proof (cases r)
  case (Inl e)
  then have "snd (completeEmailSMSMessages env service prompt company contactName) =
               Inr defaultEmailSmsResponse"
    using assms email_call_fails by blast
  then show ?thesis
    using Inl by (simp add: defaultEmailSmsResponse_def getProp_def)
next
  case (Inr results)
  show ?thesis
  proof (cases "startsWith results ''{'' \<and> endsWith results ''}''")
    case False
    then have "snd (completeEmailSMSMessages env service prompt company contactName) =
           Inr [(units ''status'', JBool False), (units ''email'', JStr (units '''')), (units ''sms'', JStr (units '''')),
                (units ''error'', JStr (units results))]"
      using assms Inr email_not_in_braces by blast
    then show ?thesis
      using Inr False by (auto simp: getProp_def)
  next
    case True
    then consider "JSON_parse results = None"
      | kvs where "JSON_parse results = Some (JObj kvs)"
      using JSON_parse_object_cases [of results] by auto
    then show ?thesis
    proof cases
      case 1
      then have "snd (completeEmailSMSMessages env service prompt company contactName) =
               Inr defaultEmailSmsResponse"
        using assms Inr True email_parse_fails by blast
      then show ?thesis
        using Inr True 1 by (simp add: defaultEmailSmsResponse_def getProp_def)
    next
      case 2
      then have "snd (completeEmailSMSMessages env service prompt company contactName) =
           Inr (setProp (spread [(units ''content'', JObj defaultEmailSmsResponse)] kvs)
                  ''status'' (JBool True))"
        using assms Inr True email_parsed by blast
      then show ?thesis
        using Inr True 2 by (simp add: getProp_setProp)
    qed
  qed
qed

theorem completeEmailSMSMessages_status_witness:
  \<open>emailCompletion azureEnv (replyWith ''Sorry, no data'') ''Order shipped'' ''Ann'' =
     ([ConsoleLog [Text ''Azure OpenAI Output: \<newline>'', Text ''Sorry, no data'']],
      Inr ''Sorry, no data'')
   \<and> \<not> (startsWith ''Sorry, no data'' ''{'' \<and> endsWith ''Sorry, no data'' ''}'')
   \<and> (\<exists>q. snd (completeEmailSMSMessages azureEnv (replyWith ''Sorry, no data'')
                  ''Order shipped'' ''Contoso'' ''Ann'') = Inr q
          \<and> getProp q ''status'' = Some (JBool False)
          \<and> getProp q ''error'' = Some (JStr (units ''Sorry, no data'')))
   \<and> emailCompletion azureEnv (replyWith emailReplyWithEscape) ''Order shipped'' ''Ann'' =
       ([ConsoleLog [Text ''Azure OpenAI Output: \<newline>'', Text emailReplyWithEscape]],
        Inr emailReplyWithEscape)
   \<and> startsWith emailReplyWithEscape ''{'' \<and> endsWith emailReplyWithEscape ''}''
   \<and> JSON_parse emailReplyWithEscape =
       Some (JObj [(units ''emailSubject'', JStr (units ''Hi'')),
                   (units ''sms'', JStr (units ''It'' @ [0x2019] @ units ''s here''))])
   \<and> (\<exists>q. snd (completeEmailSMSMessages azureEnv (replyWith emailReplyWithEscape)
                  ''Order shipped'' ''Contoso'' ''Ann'') = Inr q
          \<and> getProp q ''status'' = Some (JBool True))
   \<and> emailCompletion azureEnv (\<lambda>request. Inl TransportError) ''Order shipped'' ''Ann'' =
       ([ConsoleError [Text ''Error getting data:'', Exn TransportError]], Inl TransportError)
   \<and> snd (completeEmailSMSMessages azureEnv (\<lambda>request. Inl TransportError)
            ''Order shipped'' ''Contoso'' ''Ann'') = Inr defaultEmailSmsResponse\<close>
proof -
  have c: "emailCompletion azureEnv (replyWith ''Sorry, no data'') ''Order shipped'' ''Ann'' =
     ([ConsoleLog [Text ''Azure OpenAI Output: \<newline>'', Text ''Sorry, no data'']],
      Inr ''Sorry, no data'')"
    by code_simp
  have b: "\<not> (startsWith ''Sorry, no data'' ''{'' \<and> endsWith ''Sorry, no data'' ''}'')"
    by code_simp
  have c': "emailCompletion azureEnv (replyWith emailReplyWithEscape) ''Order shipped'' ''Ann'' =
       ([ConsoleLog [Text ''Azure OpenAI Output: \<newline>'', Text emailReplyWithEscape]],
        Inr emailReplyWithEscape)"
    by code_simp
  have b': "startsWith emailReplyWithEscape ''{'' \<and> endsWith emailReplyWithEscape ''}''"
    by code_simp
  have p': "JSON_parse emailReplyWithEscape =
       Some (JObj [(units ''emailSubject'', JStr (units ''Hi'')),
                   (units ''sms'', JStr (units ''It'' @ [0x2019] @ units ''s here''))])"
    by code_simp
  have c'': "emailCompletion azureEnv (\<lambda>request. Inl TransportError) ''Order shipped'' ''Ann'' =
       ([ConsoleError [Text ''Error getting data:'', Exn TransportError]], Inl TransportError)"
    by code_simp
  have r1: "\<exists>q. snd (completeEmailSMSMessages azureEnv (replyWith ''Sorry, no data'')
                  ''Order shipped'' ''Contoso'' ''Ann'') = Inr q
          \<and> getProp q ''status'' = Some (JBool False)
          \<and> getProp q ''error'' = Some (JStr (units ''Sorry, no data''))"
    using b completeEmailSMSMessages_status [OF c, of "''Contoso''"] by blast
  have r2: "\<exists>q. snd (completeEmailSMSMessages azureEnv (replyWith emailReplyWithEscape)
                  ''Order shipped'' ''Contoso'' ''Ann'') = Inr q
          \<and> getProp q ''status'' = Some (JBool True)"
    using b' p' completeEmailSMSMessages_status [OF c', of "''Contoso''"] by auto
  have r3: "snd (completeEmailSMSMessages azureEnv (\<lambda>request. Inl TransportError)
            ''Order shipped'' ''Contoso'' ''Ann'') = Inr defaultEmailSmsResponse"
    using completeEmailSMSMessages_status [OF c'', of "''Contoso''"] by auto
  show ?thesis
    using c b r1 c' b' p' r2 c'' r3 by blast
qed

theorem completeEmailSMSMessages_unparsable_counterexample:
  "snd (emailCompletion azureEnv (replyWith ''{bad}'') ''Order shipped'' ''Ann'') = Inr ''{bad}''
   \<and> JSON_parse ''{bad}'' = None
   \<and> snd (completeEmailSMSMessages azureEnv (replyWith ''{bad}'')
            ''Order shipped'' ''Contoso'' ''Ann'') =
       Inr [(units ''status'', JBool False), (units ''email'', JStr (units '''')), (units ''sms'', JStr (units '''')),
            (units ''error'', JStr (units ''''))]"
  by code_simp


section \<open>The completion client: properties\<close>

lemma extractJson_idem: "extractJson (extractJson c) = extractJson c"
proof (cases "extractJson c = []")
  case True
  then show ?thesis by (simp add: extractJson_no_braces)
next
  case False
  then have "balancedObject (extractJson c)" using extractJson_result by blast
  then show ?thesis using extractJson_noise [of "extractJson c" "[]" "[]"] by simp
qed

lemma azure_reply:
  "snd (getAzureOpenAICompletion azureEnv (replyWith c) systemPrompt userPrompt temperature) =
     Inr (if includes_str (trim c) ''{'' \<and> includes_str (trim c) ''}''
          then extractJson (trim c) else trim c)"
proof -
  have "includes_str [] ''{'' = False" by (simp add: includes_str_def)
  then show ?thesis
    by (auto simp: getAzureOpenAICompletion_def azureEnv_def replyWith_def isSet_def
        firstContent_def Let_def)
qed

lemma openai_reply:
  "snd (getOpenAICompletion openaiEnv (replyWith c) systemPrompt userPrompt temperature) =
     Inr (extractJson (trim c))"
  by (simp add: getOpenAICompletion_def openaiEnv_def replyWith_def isSet_def
      firstContent_def Let_def extractJson_idem)

lemma callOpenAI_openaiEnv:
  "callOpenAI openaiEnv service systemPrompt userPrompt temperature =
     getOpenAICompletion openaiEnv service systemPrompt userPrompt temperature"
  by (simp add: callOpenAI_def openaiEnv_def isSet_def)

lemma callOpenAI_azureEnv:
  "callOpenAI azureEnv service systemPrompt userPrompt temperature =
     getAzureOpenAICompletion azureEnv service systemPrompt userPrompt temperature"
  by (simp add: callOpenAI_def azureEnv_def isSet_def)

text \<open>
  C3. With the Azure client the first choice's content is returned trimmed, and reduced
  by \<open>extractJson\<close> only when it contains both braces. With the OpenAI client the trimmed
  content is reduced by \<open>extractJson\<close> in every case, before the test for braces, so a
  content without braces is not returned unchanged: for \<open>I cannot answer that\<close> the
  Azure client returns the text and the OpenAI client returns the empty string.
\<close>

theorem completion_client_extraction:
  "snd (getAzureOpenAICompletion azureEnv (replyWith c) systemPrompt userPrompt temperature) =
     Inr (if includes_str (trim c) ''{'' \<and> includes_str (trim c) ''}''
          then extractJson (trim c) else trim c)
   \<and> snd (getOpenAICompletion openaiEnv (replyWith c) systemPrompt userPrompt temperature) =
       Inr (extractJson (trim c))
   \<and> trim ''I cannot answer that'' = ''I cannot answer that''
   \<and> \<not> includes_str ''I cannot answer that'' ''{''
   \<and> snd (callOpenAI azureEnv (replyWith ''I cannot answer that'')
            systemPrompt userPrompt temperature) = Inr ''I cannot answer that''
   \<and> snd (callOpenAI openaiEnv (replyWith ''I cannot answer that'')
            systemPrompt userPrompt temperature) = Inr ''''"
proof -
  have t: "trim ''I cannot answer that'' = ''I cannot answer that''" by code_simp
  have i: "\<not> includes_str ''I cannot answer that'' ''{''" by code_simp
  have e: "extractJson ''I cannot answer that'' = ''''" by code_simp
  show ?thesis
    using t i e azure_reply [of c systemPrompt userPrompt temperature]
      openai_reply [of c systemPrompt userPrompt temperature]
      azure_reply [of "''I cannot answer that''" systemPrompt userPrompt temperature]
      openai_reply [of "''I cannot answer that''" systemPrompt userPrompt temperature]
    by (simp add: callOpenAI_openaiEnv callOpenAI_azureEnv)
qed


theorem completion_client_extraction_witness:
  \<open>snd (getAzureOpenAICompletion azureEnv (replyWith '' Sure: {"sql":"SELECT 1"} '')
          ''system'' ''user'' 0) = Inr ''{"sql":"SELECT 1"}''
   \<and> snd (getAzureOpenAICompletion azureEnv (replyWith '' I cannot answer that '')
          ''system'' ''user'' 0) = Inr ''I cannot answer that''
   \<and> snd (getOpenAICompletion openaiEnv (replyWith '' I cannot answer that '')
          ''system'' ''user'' 0) = Inr ''''\<close>
proof -
  have t: \<open>trim '' Sure: {"sql":"SELECT 1"} '' = ''Sure: {"sql":"SELECT 1"}''\<close>
    \<open>trim '' I cannot answer that '' = ''I cannot answer that''\<close>
    by code_simp+
  have i: \<open>includes_str ''Sure: {"sql":"SELECT 1"}'' ''{''\<close>
    \<open>includes_str ''Sure: {"sql":"SELECT 1"}'' ''}''\<close>
    \<open>\<not> includes_str ''I cannot answer that'' ''{''\<close>
    by code_simp+
  have e: \<open>extractJson ''Sure: {"sql":"SELECT 1"}'' = ''{"sql":"SELECT 1"}''\<close>
    \<open>extractJson ''I cannot answer that'' = []\<close>
    by code_simp+
  show ?thesis
    using t i e
      completion_client_extraction [of \<open>'' Sure: {"sql":"SELECT 1"} ''\<close> "''system''" "''user''" 0]
      completion_client_extraction [of \<open>'' I cannot answer that ''\<close> "''system''" "''user''" 0]
    by simp
qed

end
